theory Spec2Isabelle
  imports
    Main
    "HOL-Library.Word"
    "HOL-Library.Signed_Division"
    "HOL-Library.Monad_Syntax"
    "HOL-Library.Multiset"
begin

unbundle bit_operations_syntax

section \<open>Machine data\<close>

text \<open>
  Go's \<open>int32\<close> is a 32-bit word read in two's complement: comparisons are the signed
  ones (\<open><s\<close>, \<open>\<le>s\<close>), conversion to \<open>int\<close> is \<open>sint\<close>. A \<open>float32\<close> is kept as its
  IEEE-754 bit pattern, which is what \<open>math.Float32frombits\<close> receives. Go's \<open>int\<close>
  (64 bits) holds sizes and offsets only; they stay far below \<open>2 ^ 63\<close> for any file that
  exists and are modelled by \<open>int\<close>. A panic is the value \<open>None\<close>.
\<close>

type_synonym byte = "8 word"
type_synonym int32 = "32 word"
type_synonym float32 = "32 word"

text \<open>The slice expression \<open>xs[lo:hi]\<close>; it panics outside \<open>0 \<le> lo \<le> hi \<le> len\<close>.\<close>

definition slice :: "'a list \<Rightarrow> int \<Rightarrow> int \<Rightarrow> 'a list option" where
  "slice xs lo hi =
     (if 0 \<le> lo \<and> lo \<le> hi \<and> hi \<le> int (length xs)
      then Some (take (nat (hi - lo)) (drop (nat lo) xs)) else None)"

text \<open>\<open>make([]T, n)\<close> panics on a negative length.\<close>

definition make_len :: "int \<Rightarrow> nat option" where
  "make_len n = (if n < 0 then None else Some (nat n))"

text \<open>\<open>binary.LittleEndian.Uint32\<close>: the first four bytes, least significant first.\<close>

definition Uint32 :: "byte list \<Rightarrow> 32 word option" where
  "Uint32 b =
     (case b of
        b0 # b1 # b2 # b3 # _ \<Rightarrow>
          Some (ucast b0 OR push_bit 8 (ucast b1) OR push_bit 16 (ucast b2) OR push_bit 24 (ucast b3))
      | _ \<Rightarrow> None)"

section \<open>Nodes and the node decoder\<close>

record Node =
  Descendants :: int32
  Children :: "int32 list"
  Norm :: float32
  V :: "float32 list option"

text \<open>
  The two loops of \<open>GetNodePtr\<close> read \<open>n\<close> consecutive 4-byte words
  \<open>nodes[off + 4*j : off + 4 + 4*j]\<close> for \<open>j = 0, ..., n - 1\<close>.
\<close>

definition read_words :: "byte list \<Rightarrow> int \<Rightarrow> nat \<Rightarrow> 32 word list option" where
  "read_words nodes off n =
     those (map (\<lambda>j. slice nodes (off + 4 * int j) (off + 4 + 4 * int j) \<bind> Uint32) [0..<n])"

definition GetNodePtr :: "byte list \<Rightarrow> int \<Rightarrow> int32 \<Rightarrow> Node option" where
  "GetNodePtr nodes sz i =
     (let arrSize = (sz - 12) sdiv 4;
          base = sz * sint i
      in do {
        b \<leftarrow> slice nodes base (base + 4);
        d \<leftarrow> Uint32 b;
        if 2 <s d \<and> d \<le>s word_of_int arrSize + 2 then do {
          n \<leftarrow> make_len (arrSize + 2);
          cs \<leftarrow> read_words nodes (base + 4) n;
          Some \<lparr>Descendants = d, Children = cs, Norm = 0, V = None\<rparr>
        } else do {
          cs \<leftarrow> read_words nodes (base + 4) 2;
          n \<leftarrow> make_len arrSize;
          vs \<leftarrow> read_words nodes (base + 12) n;
          Some \<lparr>Descendants = d, Children = cs, Norm = 0, V = Some vs\<rparr>
        }
      })"

text \<open>
  The 4-byte little-endian integer at byte offset \<open>off\<close> of a byte region, as a number:
  the reading the file format prescribes, against which the decoder is checked.
\<close>

definition le32 :: "byte list \<Rightarrow> nat \<Rightarrow> 32 word" where
  "le32 bs off =
     word_of_nat (unat (bs ! off) + 256 * unat (bs ! (off + 1)) + 65536 * unat (bs ! (off + 2))
                  + 16777216 * unat (bs ! (off + 3)))"


section \<open>Floating-point values\<close>

text \<open>
  Comparisons of \<open>float32\<close> values are the IEEE-754 ones, decided on the bit pattern:
  a NaN (exponent all ones, fraction non-zero) is unordered and unequal to everything;
  otherwise values are ordered by sign and magnitude, and \<open>+0 = -0\<close>.
\<close>

type_synonym float64 = "64 word"

definition f32_is_nan :: "float32 \<Rightarrow> bool" where
  "f32_is_nan x = (0x7F800000 < (x AND 0x7FFFFFFF))"

definition f32_key :: "float32 \<Rightarrow> int" where
  "f32_key x = (if bit x 31 then - uint (x AND 0x7FFFFFFF) else uint (x AND 0x7FFFFFFF))"

definition f32_lt :: "float32 \<Rightarrow> float32 \<Rightarrow> bool" where
  "f32_lt x y = (\<not> f32_is_nan x \<and> \<not> f32_is_nan y \<and> f32_key x < f32_key y)"

definition f32_eq :: "float32 \<Rightarrow> float32 \<Rightarrow> bool" where
  "f32_eq x y = (\<not> f32_is_nan x \<and> \<not> f32_is_nan y \<and> f32_key x = f32_key y)"

definition f32_neg :: "float32 \<Rightarrow> float32" where
  "f32_neg x = x XOR 0x80000000"

definition f32_inf :: float32 where
  "f32_inf = 0x7F800000"

definition f32_two :: float32 where
  "f32_two = 0x40000000"

text \<open>
  Rounded arithmetic is not interpreted: the operations the program uses are the fields of
  a record, and every definition and theorem below is parametric in it. \<open>to64\<close> and
  \<open>to32\<close> are the conversions \<open>float64(x)\<close> and \<open>float32(x)\<close>; \<open>sqrt64\<close>, \<open>max64\<close> and
  \<open>min64\<close> are \<open>math.Sqrt\<close>, \<open>math.Max\<close> and \<open>math.Min\<close>.
\<close>

record fpu =
  fadd :: "float32 \<Rightarrow> float32 \<Rightarrow> float32"
  fsub :: "float32 \<Rightarrow> float32 \<Rightarrow> float32"
  fmul :: "float32 \<Rightarrow> float32 \<Rightarrow> float32"
  fdiv :: "float32 \<Rightarrow> float32 \<Rightarrow> float32"
  to64 :: "float32 \<Rightarrow> float64"
  to32 :: "float64 \<Rightarrow> float32"
  sqrt64 :: "float64 \<Rightarrow> float64"
  max64 :: "float64 \<Rightarrow> float64 \<Rightarrow> float64"
  min64 :: "float64 \<Rightarrow> float64 \<Rightarrow> float64"

section \<open>The distance metric\<close>

text \<open>\<open>Dot\<close> indexes \<open>x[z]\<close> and \<open>y[z]\<close> for \<open>z < f\<close>; it panics when either is shorter.\<close>

definition Dot :: "fpu \<Rightarrow> float32 list \<Rightarrow> float32 list \<Rightarrow> int \<Rightarrow> float32 option" where
  "Dot U x y f =
     (if f \<le> 0 then Some 0
      else if nat f \<le> length x \<and> nat f \<le> length y
      then Some (foldl (\<lambda>s z. fadd U s (fmul U (x ! z) (y ! z))) 0 [0..<nat f])
      else None)"

text \<open>\<open>node.V[:]\<close>: the vector, empty when the field is \<open>nil\<close>.\<close>

definition vec :: "Node \<Rightarrow> float32 list" where
  "vec nd = (case V nd of None \<Rightarrow> [] | Some v \<Rightarrow> v)"

text \<open>The interface \<open>DistanceMetric\<close>: a record of its five methods.\<close>

record DistanceMetric =
  Distance :: "Node \<Rightarrow> Node \<Rightarrow> int \<Rightarrow> float32 option"
  NormalizeDistance :: "float32 \<Rightarrow> float32"
  InitNode :: "Node \<Rightarrow> int \<Rightarrow> Node option"
  Margin :: "Node \<Rightarrow> float32 list \<Rightarrow> int \<Rightarrow> float32 option"
  PQDistance :: "float32 \<Rightarrow> float32 \<Rightarrow> int \<Rightarrow> float32"

definition Angular_Distance :: "fpu \<Rightarrow> Node \<Rightarrow> Node \<Rightarrow> int \<Rightarrow> float32 option" where
  "Angular_Distance U x y f = do {
     pp \<leftarrow> (if f32_eq (Norm x) 0 then Dot U (vec x) (vec x) f else Some (Norm x));
     qq \<leftarrow> (if f32_eq (Norm y) 0 then Dot U (vec y) (vec y) f else Some (Norm y));
     let ppqq = fmul U pp qq;
     if f32_lt 0 ppqq then do {
       pq \<leftarrow> Dot U (vec x) (vec y) f;
       Some (fsub U f32_two (fdiv U (fmul U f32_two pq) (to32 U (sqrt64 U (to64 U ppqq)))))
     } else Some f32_two
   }"

definition Angular_NormalizeDistance :: "fpu \<Rightarrow> float32 \<Rightarrow> float32" where
  "Angular_NormalizeDistance U distance = to32 U (sqrt64 U (max64 U (to64 U distance) 0))"

definition Angular_InitNode :: "fpu \<Rightarrow> Node \<Rightarrow> int \<Rightarrow> Node option" where
  "Angular_InitNode U node f = do {
     n \<leftarrow> Dot U (vec node) (vec node) f;
     Some (node\<lparr>Norm := n\<rparr>)
   }"

definition Angular_Margin :: "fpu \<Rightarrow> Node \<Rightarrow> float32 list \<Rightarrow> int \<Rightarrow> float32 option" where
  "Angular_Margin U n y f = Dot U (vec n) y f"

definition Angular_PQDistance :: "fpu \<Rightarrow> float32 \<Rightarrow> float32 \<Rightarrow> int \<Rightarrow> float32" where
  "Angular_PQDistance U distance margin childNr =
     (let margin = (if childNr = 0 then f32_neg margin else margin)
      in to32 U (min64 U (to64 U distance) (to64 U margin)))"

definition Angular :: "fpu \<Rightarrow> DistanceMetric" where
  "Angular U =
     \<lparr>Distance = Angular_Distance U,
      NormalizeDistance = Angular_NormalizeDistance U,
      InitNode = Angular_InitNode U,
      Margin = Angular_Margin U,
      PQDistance = Angular_PQDistance U\<rparr>"

section \<open>The priority queue\<close>

record Pair =
  first :: float32
  second :: int32

type_synonym PriorityQueue = "Pair list"

definition Less :: "PriorityQueue \<Rightarrow> nat \<Rightarrow> nat \<Rightarrow> bool" where
  "Less pq i j =
     (if f32_eq (first (pq ! i)) (first (pq ! j)) then second (pq ! j) <s second (pq ! i)
      else f32_lt (first (pq ! j)) (first (pq ! i)))"

definition Swap :: "PriorityQueue \<Rightarrow> nat \<Rightarrow> nat \<Rightarrow> PriorityQueue" where
  "Swap pq i j = pq[i := pq ! j, j := pq ! i]"

text \<open>
  \<open>container/heap\<close> of the Go library, on the methods above: \<open>up\<close> and \<open>down\<close> restore
  the heap order after \<open>Push\<close> has appended an element and after \<open>Pop\<close> has swapped the
  root to the end; \<open>Pop\<close> then removes and returns the last element.
\<close>

function heap_up :: "PriorityQueue \<Rightarrow> nat \<Rightarrow> PriorityQueue" where
  "heap_up h j =
     (let i = (j - 1) div 2
      in if i = j \<or> \<not> Less h j i then h else heap_up (Swap h i j) i)"
  by pat_completeness auto
termination
  by (relation "measure snd") auto

function heap_down :: "PriorityQueue \<Rightarrow> nat \<Rightarrow> nat \<Rightarrow> PriorityQueue" where
  "heap_down h i n =
     (let j1 = 2 * i + 1
      in if n \<le> j1 then h
         else let j = (if j1 + 1 < n \<and> Less h (j1 + 1) j1 then j1 + 1 else j1)
              in if \<not> Less h j i then h else heap_down (Swap h i j) j n)"
  by pat_completeness auto
termination
  by (relation "measure (\<lambda>(h, i, n). n - i)") auto

definition heap_Push :: "PriorityQueue \<Rightarrow> Pair \<Rightarrow> PriorityQueue" where
  "heap_Push h x = heap_up (h @ [x]) (length h)"

text \<open>\<open>heap.Pop\<close> on an empty queue panics (\<open>Swap(0, -1)\<close>).\<close>

definition heap_Pop :: "PriorityQueue \<Rightarrow> (Pair \<times> PriorityQueue) option" where
  "heap_Pop h =
     (if h = [] then None
      else let n = length h - 1;
               h' = heap_down (Swap h 0 n) 0 n
           in Some (last h', butlast h'))"

section \<open>The index\<close>

text \<open>
  The fields of \<open>AnnoyIndex\<close>; \<open>f\<close>, \<open>s\<close> and \<open>k\<close> carry the prefix \<open>idx\<close>. The type
  parameter \<open>D\<close> is passed to each operation as its record of methods. \<open>nil\<close> is
  \<open>None\<close>; \<open>fd\<close> holds the name of the file that is open.
\<close>

record AnnoyIndex =
  idx_f :: int
  idx_s :: int
  nItems :: int32
  nodes :: "byte list option"
  nNodes :: int32
  roots :: "int32 list"
  idx_k :: int32
  fd :: "string option"
  mmap :: "byte list option"
  cache :: "int32 \<rightharpoonup> Node"

definition reinitialize :: "AnnoyIndex \<Rightarrow> AnnoyIndex" where
  "reinitialize index = index\<lparr>fd := None, nodes := None, nItems := 0, nNodes := 0, roots := []\<rparr>"

definition NewAnnoyIndex :: "int \<Rightarrow> AnnoyIndex" where
  "NewAnnoyIndex f =
     reinitialize
       \<lparr>idx_f = f, idx_s = 12 + f * 4, nItems = 0, nodes = None, nNodes = 0, roots = [],
        idx_k = word_of_int ((12 + f * 4 - 4) sdiv 4), fd = None, mmap = None, cache = Map.empty\<rparr>"

text \<open>
  What the operating system answers: which files exist, with their bytes, whether a
  call of \<open>Stat\<close>, \<open>Read\<close>, \<open>mmap.Map\<close>, \<open>Unmap\<close> or \<open>Close\<close> fails, and how many
  bytes one call of \<open>Read\<close> delivers when it is asked for \<open>n\<close> (\<open>read_len\<close>; a call may
  deliver fewer than it is asked for without failing).
\<close>

record os_env =
  files :: "string \<rightharpoonup> byte list"
  stat_fails :: bool
  read_fails :: bool
  read_len :: "nat \<Rightarrow> nat"
  mmap_fails :: bool
  unmap_fails :: bool
  close_fails :: bool

datatype error =
  UnableToOpen | UnableToGetSize | SizeIsZero | SizeNotMultiple | UnableToRead | UnableToMmap
  | ErrorUnmapping | ErrorClosing

definition Unload :: "os_env \<Rightarrow> AnnoyIndex \<Rightarrow> error option \<times> AnnoyIndex" where
  "Unload os index =
     (case fd index of
        Some _ \<Rightarrow>
          if mmap index \<noteq> None \<and> unmap_fails os then (Some ErrorUnmapping, index)
          else let index = (if mmap index \<noteq> None then index\<lparr>mmap := None\<rparr> else index)
               in if close_fails os then (Some ErrorClosing, index)
                  else (None, reinitialize index)
      | None \<Rightarrow>
          (None, reinitialize (if nodes index \<noteq> None then index\<lparr>nodes := None\<rparr> else index)))"

text \<open>The backing bytes as the slice handed to \<open>GetNodePtr\<close>: \<open>nil\<close> has no element.\<close>

definition backing :: "AnnoyIndex \<Rightarrow> byte list" where
  "backing index = (case nodes index of None \<Rightarrow> [] | Some bs \<Rightarrow> bs)"

text \<open>
  \<open>getNode\<close> returns the node together with the index, whose cache it may have extended.
\<close>

definition getNode :: "DistanceMetric \<Rightarrow> AnnoyIndex \<Rightarrow> int32 \<Rightarrow> (Node \<times> AnnoyIndex) option" where
  "getNode M index i =
     (if mmap index \<noteq> None then do {
        node \<leftarrow> GetNodePtr (backing index) (idx_s index) i;
        Some (node, index)
      } else
        case cache index i of
          Some node \<Rightarrow> Some (node, index)
        | None \<Rightarrow> do {
            node \<leftarrow> GetNodePtr (backing index) (idx_s index) i;
            node \<leftarrow> (if V node \<noteq> None then InitNode M node (idx_f index) else Some node);
            Some (node, index\<lparr>cache := (cache index)(i \<mapsto> node)\<rparr>)
          })"

text \<open>
  The root scan of \<open>Load\<close>, \<open>for i := nNodes - 1; i >= 0; i--\<close>: the first argument
  counts the indices still to visit, the node visited is the one below it.
\<close>

fun scan_roots :: "DistanceMetric \<Rightarrow> nat \<Rightarrow> int32 \<Rightarrow> AnnoyIndex \<Rightarrow> (int32 \<times> AnnoyIndex) option" where
  "scan_roots M 0 m index = Some (m, index)"
| "scan_roots M (Suc j) m index = do {
     (node, index) \<leftarrow> getNode M index (word_of_nat j);
     let k = Descendants node;
     if m = - 1 \<or> k = m
     then scan_roots M j k (index\<lparr>roots := roots index @ [word_of_nat j]\<rparr>)
     else Some (m, index)
   }"

text \<open>\<open>xs[i]\<close> panics outside the list.\<close>

definition index_at :: "'a list \<Rightarrow> nat \<Rightarrow> 'a option" where
  "index_at xs i = (if i < length xs then Some (xs ! i) else None)"

definition drop_duplicate_root :: "DistanceMetric \<Rightarrow> AnnoyIndex \<Rightarrow> AnnoyIndex option" where
  "drop_duplicate_root M index =
     (if 1 < length (roots index) then do {
        (a, index) \<leftarrow> getNode M index (hd (roots index));
        ca \<leftarrow> index_at (Children a) 0;
        (b, index) \<leftarrow> getNode M index (last (roots index));
        cb \<leftarrow> index_at (Children b) 0;
        Some (if ca = cb then index\<lparr>roots := butlast (roots index)\<rparr> else index)
      } else Some index)"

definition discover_roots :: "DistanceMetric \<Rightarrow> int \<Rightarrow> AnnoyIndex \<Rightarrow> AnnoyIndex option" where
  "discover_roots M sz index = do {
     let index = index\<lparr>nNodes := word_of_int (sz sdiv idx_s index)\<rparr>;
     let index = index\<lparr>roots := []\<rparr>;
     let i0 = nNodes index - 1;
     (m, index) \<leftarrow> scan_roots M (if 0 \<le>s i0 then Suc (nat (sint i0)) else 0) (- 1) index;
     index \<leftarrow> drop_duplicate_root M index;
     Some (index\<lparr>nItems := m\<rparr>)
   }"

text \<open>
  \<open>nodes := make([]byte, size); _, err = f.Read(nodes)\<close>: the one call of \<open>Read\<close> fills
  a prefix of the zeroed buffer, and the number of bytes it has read is discarded.
\<close>

definition file_Read :: "os_env \<Rightarrow> byte list \<Rightarrow> byte list" where
  "file_Read os content =
     (let n = min (read_len os (length content)) (length content)
      in take n content @ replicate (length content - n) 0)"

text \<open>
  \<open>Load\<close> returns the error (or none) and the index as the call leaves it; \<open>None\<close> is a
  panic. \<open>size % s\<close> panics when \<open>s\<close> is 0.
\<close>

definition Load :: "DistanceMetric \<Rightarrow> os_env \<Rightarrow> string \<Rightarrow> bool \<Rightarrow> AnnoyIndex \<Rightarrow> (error option \<times> AnnoyIndex) option" where
  "Load M os filename memory index =
     (case files os filename of
        None \<Rightarrow> Some (Some UnableToOpen, index)
      | Some content \<Rightarrow>
          let index = index\<lparr>fd := Some filename\<rparr>;
              sz = int (length content)
          in if stat_fails os then Some (Some UnableToGetSize, index)
             else if sz = 0 then Some (Some SizeIsZero, index)
             else if idx_s index = 0 then None
             else if sz smod idx_s index \<noteq> 0 then Some (Some SizeNotMultiple, index)
             else if memory then
               (let index = index\<lparr>mmap := None\<rparr>
                in if read_fails os then Some (Some UnableToRead, index)
                   else map_option (Pair None)
                          (discover_roots M sz (index\<lparr>nodes := Some (file_Read os content)\<rparr>)))
             else if mmap_fails os then Some (Some UnableToMmap, index\<lparr>mmap := None\<rparr>)
             else map_option (Pair None)
                    (discover_roots M sz (index\<lparr>mmap := Some content, nodes := Some content\<rparr>)))"

definition GetNItems :: "AnnoyIndex \<Rightarrow> int32" where
  "GetNItems index = nItems index"

definition GetNTrees :: "AnnoyIndex \<Rightarrow> int" where
  "GetNTrees index = int (length (roots index))"

section \<open>The query\<close>

text \<open>
  Two behaviours of the Go runtime are not fixed by the language: the order in which
  \<open>range\<close> visits the keys of a map, and the permutation \<open>sort.Slice\<close> returns (it is not
  stable). Both are parameters: \<open>map_range\<close> maps the keys in insertion order to the order
  of the visit, \<open>sort_Slice\<close> sorts with the given \<open>less\<close>.
\<close>

record go_runtime =
  map_range :: "int32 list \<Rightarrow> int32 list"
  sort_Slice :: "(Pair \<Rightarrow> Pair \<Rightarrow> bool) \<Rightarrow> Pair list \<Rightarrow> Pair list"

text \<open>The state of the loop of \<open>getAllNns\<close>: the frontier, the candidates, the index.\<close>

type_synonym loop_state = "PriorityQueue \<times> int32 list \<times> AnnoyIndex"

definition nns_step :: "DistanceMetric \<Rightarrow> float32 list \<Rightarrow> loop_state \<Rightarrow> loop_state option" where
  "nns_step M v st =
     (case st of (pq, nns, index) \<Rightarrow> do {
        (top, pq) \<leftarrow> heap_Pop pq;
        let d = first top;
        let i = second top;
        (nd, index) \<leftarrow> getNode M index i;
        if Descendants nd = 1 \<and> i <s nItems index then Some (pq, nns @ [i], index)
        else if Descendants nd \<le>s idx_k index then do {
          cs \<leftarrow> slice (Children nd) 0 (sint (Descendants nd));
          Some (pq, nns @ cs, index)
        } else do {
          margin \<leftarrow> Margin M nd v (idx_f index);
          c1 \<leftarrow> index_at (Children nd) 1;
          let pq = heap_Push pq \<lparr>first = PQDistance M d margin 1, second = c1\<rparr>;
          c0 \<leftarrow> index_at (Children nd) 0;
          let pq = heap_Push pq \<lparr>first = PQDistance M d margin 0, second = c0\<rparr>;
          Some (pq, nns, index)
        }
      })"

text \<open>
  The loop \<open>for len(nns) < searchK && pq.Len() > 0\<close>. It need not end: the value \<open>None\<close>
  is a run that never leaves the loop, \<open>Some None\<close> a panic inside it.
\<close>

partial_function (option) nns_loop :: "DistanceMetric \<Rightarrow> float32 list \<Rightarrow> int \<Rightarrow> loop_state \<Rightarrow> loop_state option option" where
  "nns_loop M v searchK st =
     (if int (length (fst (snd st))) < searchK \<and> fst st \<noteq> []
      then (case nns_step M v st of None \<Rightarrow> Some None | Some st' \<Rightarrow> nns_loop M v searchK st')
      else Some (Some st))"

declare nns_loop.simps [code]

text \<open>The keys of \<open>nnSet\<close> in insertion order.\<close>

definition nnSet_keys :: "int32 list \<Rightarrow> int32 list" where
  "nnSet_keys nns = rev (remdups (rev nns))"

text \<open>
  The loop over \<open>nnSet\<close>: the pairs written to \<open>nnsDist[0], nnsDist[1], ...\<close>, in the
  order of the visit.
\<close>

fun leaf_distances :: "DistanceMetric \<Rightarrow> Node \<Rightarrow> int32 list \<Rightarrow> AnnoyIndex \<Rightarrow> (Pair list \<times> AnnoyIndex) option" where
  "leaf_distances M vNode [] index = Some ([], index)"
| "leaf_distances M vNode (j # js) index = do {
     (nd, index) \<leftarrow> getNode M index j;
     if Descendants nd = 1 then do {
       (nd', index) \<leftarrow> getNode M index j;
       dist \<leftarrow> Distance M vNode nd' (idx_f index);
       (ps, index) \<leftarrow> leaf_distances M vNode js index;
       Some (\<lparr>first = dist, second = j\<rparr> # ps, index)
     } else leaf_distances M vNode js index
   }"

definition rank_candidates :: "go_runtime \<Rightarrow> DistanceMetric \<Rightarrow> Node \<Rightarrow> int \<Rightarrow> int32 list \<Rightarrow> AnnoyIndex \<Rightarrow> ((int32 list \<times> float32 list) \<times> AnnoyIndex) option" where
  "rank_candidates rt M vNode n nns index = do {
     let keys = map_range rt (nnSet_keys nns);
     (ps, index) \<leftarrow> leaf_distances M vNode keys index;
     let nnsDist = ps @ replicate (length (nnSet_keys nns) - length ps) \<lparr>first = 0, second = 0\<rparr>;
     let m = int (length nnsDist);
     let p = (if m < n then m else n);
     let nnsDist = sort_Slice rt (\<lambda>a b. f32_lt (first a) (first b)) nnsDist;
     let top = take (nat p) nnsDist;
     Some ((map second top, map (\<lambda>a. NormalizeDistance M (first a)) top), index)
   }"

text \<open>
  \<open>getAllNns\<close>: \<open>None\<close> when the loop never ends, \<open>Some None\<close> on a panic, otherwise
  the item indices and the distances, with the index.
\<close>

definition query_node :: "DistanceMetric \<Rightarrow> int \<Rightarrow> float32 list \<Rightarrow> Node option" where
  "query_node M f v = do {
     n \<leftarrow> make_len f;
     InitNode M \<lparr>Descendants = 0, Children = [], Norm = 0, V = Some (take n v @ replicate (n - length v) 0)\<rparr> f
   }"

definition initial_frontier :: "int32 list \<Rightarrow> PriorityQueue" where
  "initial_frontier rs = foldl (\<lambda>pq root. heap_Push pq \<lparr>first = f32_inf, second = root\<rparr>) [] rs"

definition getAllNns :: "go_runtime \<Rightarrow> DistanceMetric \<Rightarrow> AnnoyIndex \<Rightarrow> float32 list \<Rightarrow> int \<Rightarrow> int \<Rightarrow> ((int32 list \<times> float32 list) \<times> AnnoyIndex) option option" where
  "getAllNns rt M index v n searchK =
     (case query_node M (idx_f index) v of
        None \<Rightarrow> Some None
      | Some vNode \<Rightarrow>
          let searchK = (if searchK = - 1 then n * int (length (roots index)) else searchK)
          in case nns_loop M v searchK (initial_frontier (roots index), [], index) of
               None \<Rightarrow> None
             | Some None \<Rightarrow> Some None
             | Some (Some (pq, nns, index)) \<Rightarrow> Some (rank_candidates rt M vNode n nns index))"

definition GetNnsByVector :: "go_runtime \<Rightarrow> DistanceMetric \<Rightarrow> AnnoyIndex \<Rightarrow> float32 list \<Rightarrow> int \<Rightarrow> int \<Rightarrow> ((int32 list \<times> float32 list) \<times> AnnoyIndex) option option" where
  "GetNnsByVector rt M index v n searchK = getAllNns rt M index v n searchK"


section \<open>IEEE-754 arithmetic\<close>

text \<open>
  One interpretation of the arithmetic record, used to run the definitions on concrete
  indexes: binary32 and binary64 with round-to-nearest, ties to even. A finite value is
  \<open>FFin sign m e\<close>, of magnitude \<open>m * 2 ^ e\<close>. Sums and products of finite values are
  exact before rounding; a quotient or a square root that is not exact is cut to more
  than \<open>fb + 3\<close> significant bits and marked by a final 1 bit, which rounds as the exact
  value does. An invalid operation gives the quiet NaN with a zero payload; the program
  observes of a NaN only that it is one.
\<close>

function bitlen :: "int \<Rightarrow> int" where
  "bitlen n = (if n \<le> 0 then 0 else 1 + bitlen (n div 2))"
  by pat_completeness auto
termination
  by (relation "measure nat") auto

declare bitlen.simps [simp del]

function isqrt_iter :: "int \<Rightarrow> int \<Rightarrow> int" where
  "isqrt_iter n x =
     (if x \<le> 0 then 0
      else let y = (x + n div x) div 2 in if x \<le> y then x else isqrt_iter n y)"
  by pat_completeness auto
termination
  by (relation "measure (\<lambda>(n, x). nat x)") auto

declare isqrt_iter.simps [simp del]

definition isqrt :: "int \<Rightarrow> int" where
  "isqrt n = (if n \<le> 0 then 0 else isqrt_iter n (2 ^ nat ((bitlen n + 1) div 2)))"

datatype fval = FNaN | FInf bool | FFin bool int int

definition fdecode :: "nat \<Rightarrow> nat \<Rightarrow> int \<Rightarrow> fval" where
  "fdecode eb fb w =
     (let frac = w mod 2 ^ fb;
          ex = (w div 2 ^ fb) mod 2 ^ eb;
          sg = ((w div 2 ^ (fb + eb)) mod 2 = 1);
          bias = 2 ^ (eb - 1) - 1
      in if ex = 2 ^ eb - 1 then (if frac = 0 then FInf sg else FNaN)
         else FFin sg (if ex = 0 then frac else 2 ^ fb + frac)
                ((if ex = 0 then 1 else ex) - bias - int fb))"

definition sign_bit :: "nat \<Rightarrow> nat \<Rightarrow> bool \<Rightarrow> int" where
  "sign_bit eb fb sg = (if sg then 2 ^ (eb + fb) else 0)"

definition inf_bits :: "nat \<Rightarrow> nat \<Rightarrow> int" where
  "inf_bits eb fb = (2 ^ eb - 1) * 2 ^ fb"

definition nan_bits :: "nat \<Rightarrow> nat \<Rightarrow> int" where
  "nan_bits eb fb = (2 ^ eb - 1) * 2 ^ fb + 2 ^ (fb - 1)"

definition fround :: "nat \<Rightarrow> nat \<Rightarrow> bool \<Rightarrow> int \<Rightarrow> int \<Rightarrow> int" where
  "fround eb fb sg m e =
     (if m = 0 then sign_bit eb fb sg
      else let emin = 2 - 2 ^ (eb - 1);
               ex = max emin (e + bitlen m - 1);
               sh = ex - int fb - e;
               q = (if sh \<le> 0 then m * 2 ^ nat (- sh) else m div 2 ^ nat sh);
               r = (if sh \<le> 0 then 0 else m mod 2 ^ nat sh);
               half = (if sh \<le> 0 then 1 else 2 ^ nat (sh - 1));
               mant = (if half < r \<or> (r = half \<and> odd q) then q + 1 else q);
               code = (ex - emin) * 2 ^ fb + mant
           in sign_bit eb fb sg + min code (inf_bits eb fb))"

definition fencode :: "nat \<Rightarrow> nat \<Rightarrow> fval \<Rightarrow> int" where
  "fencode eb fb x =
     (case x of FNaN \<Rightarrow> nan_bits eb fb
      | FInf sg \<Rightarrow> sign_bit eb fb sg + inf_bits eb fb
      | FFin sg m e \<Rightarrow> fround eb fb sg m e)"

definition signed_at :: "bool \<Rightarrow> int \<Rightarrow> int \<Rightarrow> int \<Rightarrow> int" where
  "signed_at sg m e e0 = (if sg then - (m * 2 ^ nat (e - e0)) else m * 2 ^ nat (e - e0))"

fun fv_neg :: "fval \<Rightarrow> fval" where
  "fv_neg FNaN = FNaN"
| "fv_neg (FInf sg) = FInf (\<not> sg)"
| "fv_neg (FFin sg m e) = FFin (\<not> sg) m e"

fun fv_add :: "fval \<Rightarrow> fval \<Rightarrow> fval" where
  "fv_add FNaN _ = FNaN"
| "fv_add _ FNaN = FNaN"
| "fv_add (FInf a) (FInf b) = (if a = b then FInf a else FNaN)"
| "fv_add (FInf a) (FFin _ _ _) = FInf a"
| "fv_add (FFin _ _ _) (FInf b) = FInf b"
| "fv_add (FFin a m1 e1) (FFin b m2 e2) =
     (let e = min e1 e2;
          s = signed_at a m1 e1 e + signed_at b m2 e2 e
      in if s = 0 then FFin (a \<and> b) 0 0 else FFin (s < 0) \<bar>s\<bar> e)"

fun fv_mul :: "fval \<Rightarrow> fval \<Rightarrow> fval" where
  "fv_mul FNaN _ = FNaN"
| "fv_mul _ FNaN = FNaN"
| "fv_mul (FInf a) (FInf b) = FInf (a \<noteq> b)"
| "fv_mul (FInf a) (FFin b m e) = (if m = 0 then FNaN else FInf (a \<noteq> b))"
| "fv_mul (FFin a m e) (FInf b) = (if m = 0 then FNaN else FInf (a \<noteq> b))"
| "fv_mul (FFin a m1 e1) (FFin b m2 e2) = FFin (a \<noteq> b) (m1 * m2) (e1 + e2)"

fun fv_div :: "nat \<Rightarrow> fval \<Rightarrow> fval \<Rightarrow> fval" where
  "fv_div fb FNaN _ = FNaN"
| "fv_div fb _ FNaN = FNaN"
| "fv_div fb (FInf a) (FInf b) = FNaN"
| "fv_div fb (FInf a) (FFin b m e) = FInf (a \<noteq> b)"
| "fv_div fb (FFin a m e) (FInf b) = FFin (a \<noteq> b) 0 0"
| "fv_div fb (FFin a m1 e1) (FFin b m2 e2) =
     (if m2 = 0 then (if m1 = 0 then FNaN else FInf (a \<noteq> b))
      else if m1 = 0 then FFin (a \<noteq> b) 0 0
      else let k = max 0 (int fb + 3 + bitlen m2 - bitlen m1);
               n = m1 * 2 ^ nat k;
               q = n div m2
           in if n mod m2 = 0 then FFin (a \<noteq> b) q (e1 - e2 - k)
              else FFin (a \<noteq> b) (2 * q + 1) (e1 - e2 - k - 1))"

fun fv_sqrt :: "nat \<Rightarrow> fval \<Rightarrow> fval" where
  "fv_sqrt fb FNaN = FNaN"
| "fv_sqrt fb (FInf sg) = (if sg then FNaN else FInf False)"
| "fv_sqrt fb (FFin sg m e) =
     (if m = 0 then FFin sg 0 0
      else if sg then FNaN
      else let k0 = max 0 (2 * (int fb + 3) - bitlen m);
               k = (if even (e - k0) then k0 else k0 + 1);
               n = m * 2 ^ nat k;
               r = isqrt n
           in if r * r = n then FFin False r ((e - k) div 2)
              else FFin False (2 * r + 1) ((e - k) div 2 - 1))"

definition fv_lt :: "fval \<Rightarrow> fval \<Rightarrow> bool" where
  "fv_lt x y =
     (case (x, y) of
        (FNaN, _) \<Rightarrow> False | (_, FNaN) \<Rightarrow> False
      | (FInf a, FInf b) \<Rightarrow> a \<and> \<not> b
      | (FInf a, FFin _ _ _) \<Rightarrow> a
      | (FFin _ _ _, FInf b) \<Rightarrow> \<not> b
      | (FFin a m1 e1, FFin b m2 e2) \<Rightarrow>
          signed_at a m1 e1 (min e1 e2) < signed_at b m2 e2 (min e1 e2))"

definition is_zero :: "fval \<Rightarrow> bool" where
  "is_zero x = (case x of FFin _ m _ \<Rightarrow> m = 0 | _ \<Rightarrow> False)"

definition sign_of :: "fval \<Rightarrow> bool" where
  "sign_of x = (case x of FFin sg _ _ \<Rightarrow> sg | FInf sg \<Rightarrow> sg | FNaN \<Rightarrow> False)"

definition go_Max :: "int \<Rightarrow> int \<Rightarrow> int" where
  "go_Max a b =
     (let x = fdecode 11 52 a; y = fdecode 11 52 b
      in if x = FInf False \<or> y = FInf False then inf_bits 11 52
         else if x = FNaN \<or> y = FNaN then nan_bits 11 52
         else if is_zero x \<and> is_zero y then (if sign_of x then b else a)
         else if fv_lt y x then a else b)"

definition go_Min :: "int \<Rightarrow> int \<Rightarrow> int" where
  "go_Min a b =
     (let x = fdecode 11 52 a; y = fdecode 11 52 b
      in if x = FInf True \<or> y = FInf True then sign_bit 11 52 True + inf_bits 11 52
         else if x = FNaN \<or> y = FNaN then nan_bits 11 52
         else if is_zero x \<and> is_zero y then (if sign_of x then a else b)
         else if fv_lt x y then a else b)"

definition op32 :: "(fval \<Rightarrow> fval \<Rightarrow> fval) \<Rightarrow> float32 \<Rightarrow> float32 \<Rightarrow> float32" where
  "op32 g a b = word_of_int (fencode 8 23 (g (fdecode 8 23 (uint a)) (fdecode 8 23 (uint b))))"

definition ieee :: fpu where
  "ieee =
     \<lparr>fadd = op32 fv_add,
      fsub = op32 (\<lambda>x y. fv_add x (fv_neg y)),
      fmul = op32 fv_mul,
      fdiv = op32 (fv_div 23),
      to64 = (\<lambda>a. word_of_int (fencode 11 52 (fdecode 8 23 (uint a)))),
      to32 = (\<lambda>a. word_of_int (fencode 8 23 (fdecode 11 52 (uint a)))),
      sqrt64 = (\<lambda>a. word_of_int (fencode 11 52 (fv_sqrt 52 (fdecode 11 52 (uint a))))),
      max64 = (\<lambda>a b. word_of_int (go_Max (uint a) (uint b))),
      min64 = (\<lambda>a b. word_of_int (go_Min (uint a) (uint b)))\<rparr>"


section \<open>A concrete runtime\<close>

text \<open>
  \<open>sort.Slice\<close> on at most 12 elements is the insertion sort of the Go library: element
  \<open>i\<close> moves left while \<open>less\<close> holds against its left neighbour. \<open>sink\<close> works on the
  sorted prefix in reverse.
\<close>

fun sink :: "('a \<Rightarrow> 'a \<Rightarrow> bool) \<Rightarrow> 'a \<Rightarrow> 'a list \<Rightarrow> 'a list" where
  "sink lt x [] = [x]"
| "sink lt x (y # ys) = (if lt x y then y # sink lt x ys else x # y # ys)"

definition insertion_sort :: "('a \<Rightarrow> 'a \<Rightarrow> bool) \<Rightarrow> 'a list \<Rightarrow> 'a list" where
  "insertion_sort lt xs = rev (foldl (\<lambda>acc x. sink lt x acc) [] xs)"

text \<open>Two runtimes that differ only in the order in which \<open>range\<close> visits a map.\<close>

definition rt_forward :: go_runtime where
  "rt_forward = \<lparr>map_range = (\<lambda>ks. ks), sort_Slice = insertion_sort\<rparr>"

definition rt_backward :: go_runtime where
  "rt_backward = \<lparr>map_range = rev, sort_Slice = insertion_sort\<rparr>"

text \<open>
  What the language promises of the two: \<open>range\<close> visits every key once, and
  \<open>sort.Slice\<close> permutes its argument and leaves it sorted when \<open>less\<close> is a strict weak
  order on its elements.
\<close>

definition strict_weak_on :: "'a set \<Rightarrow> ('a \<Rightarrow> 'a \<Rightarrow> bool) \<Rightarrow> bool" where
  "strict_weak_on A lt =
     ((\<forall>x\<in>A. \<not> lt x x) \<and>
      (\<forall>x\<in>A. \<forall>y\<in>A. \<forall>z\<in>A. lt x y \<and> lt y z \<longrightarrow> lt x z) \<and>
      (\<forall>x\<in>A. \<forall>y\<in>A. \<forall>z\<in>A. \<not> lt x y \<and> \<not> lt y z \<longrightarrow> \<not> lt x z))"

definition runtime_ok :: "go_runtime \<Rightarrow> bool" where
  "runtime_ok rt =
     ((\<forall>ks. distinct ks \<longrightarrow> mset (map_range rt ks) = mset ks) \<and>
      (\<forall>lt xs. mset (sort_Slice rt lt xs) = mset xs \<and>
         (strict_weak_on (set xs) lt \<longrightarrow> sorted_wrt (\<lambda>a b. \<not> lt b a) (sort_Slice rt lt xs))))"

text \<open>
  An operating system that holds one file and never fails; \<open>Read\<close> delivers all the bytes
  it is asked for.
\<close>

definition os_with :: "string \<Rightarrow> byte list \<Rightarrow> os_env" where
  "os_with name content =
     \<lparr>files = [name \<mapsto> content], stat_fails = False, read_fails = False, read_len = (\<lambda>n. n),
      mmap_fails = False, unmap_fails = False, close_fails = False\<rparr>"

section \<open>Auxiliary notions\<close>

text \<open>
  A metric is \<^emph>\<open>norm-only\<close> when \<open>InitNode\<close> changes nothing of a node but the cached
  norm, as the angular one does.
\<close>

definition norm_only :: "DistanceMetric \<Rightarrow> bool" where
  "norm_only M = (\<forall>nd f nd'. InitNode M nd f = Some nd' \<longrightarrow> nd' = nd\<lparr>Norm := Norm nd'\<rparr>)"

text \<open>What a cache miss of \<open>getNode\<close> stores for node \<open>i\<close>.\<close>

definition materialize :: "DistanceMetric \<Rightarrow> AnnoyIndex \<Rightarrow> int32 \<Rightarrow> Node option" where
  "materialize M index i = do {
     node \<leftarrow> GetNodePtr (backing index) (idx_s index) i;
     if V node \<noteq> None then InitNode M node (idx_f index) else Some node
   }"

text \<open>The cache is \<^emph>\<open>coherent\<close> when every entry is what a miss would store now.\<close>

definition cache_coherent :: "DistanceMetric \<Rightarrow> AnnoyIndex \<Rightarrow> bool" where
  "cache_coherent M index = (\<forall>i nd. cache index i = Some nd \<longrightarrow> materialize M index i = Some nd)"

text \<open>
  An index is \<^emph>\<open>readable\<close> when node lookups see the backing bytes: it is mapped, or its
  cache is coherent. \<open>decoded\<close> is the node the decoder gives at an index in range;
  \<open>same_store\<close> relates two states of an index that differ in the roots and the cache
  at most.
\<close>

definition readable :: "DistanceMetric \<Rightarrow> AnnoyIndex \<Rightarrow> bool" where
  "readable M index = (mmap index \<noteq> None \<or> cache_coherent M index)"

definition decoded :: "AnnoyIndex \<Rightarrow> int32 \<Rightarrow> Node" where
  "decoded index i = the (GetNodePtr (backing index) (idx_s index) i)"

definition same_store :: "AnnoyIndex \<Rightarrow> AnnoyIndex \<Rightarrow> bool" where
  "same_store a b =
     (idx_f a = idx_f b \<and> idx_s a = idx_s b \<and> nItems a = nItems b \<and> nodes a = nodes b \<and>
      nNodes a = nNodes b \<and> idx_k a = idx_k b \<and> fd a = fd b \<and> mmap a = mmap b)"

text \<open>
  Root discovery in the words of the specification, over the \<open>descendants\<close> value and the
  first child of each node: scan from the highest index down, collect while the value
  equals that of the first node visited; then drop the last root found when more than one
  was found and the first and the last have the same first child.
\<close>

definition spec_scan :: "(nat \<Rightarrow> int32) \<Rightarrow> nat \<Rightarrow> nat list" where
  "spec_scan desc n = takeWhile (\<lambda>i. desc i = desc (n - 1)) (rev [0..<n])"

definition spec_roots :: "(nat \<Rightarrow> int32) \<Rightarrow> (nat \<Rightarrow> int32) \<Rightarrow> nat \<Rightarrow> nat list" where
  "spec_roots desc child0 n =
     (let rs = spec_scan desc n
      in if 1 < length rs \<and> child0 (hd rs) = child0 (last rs) then butlast rs else rs)"

section \<open>Example index files\<close>

text \<open>
  Index files of dimensionality 1 (stride 16, \<open>K = 3\<close>). \<open>forest_file\<close>: items 0 to 3
  with the vectors 1, 2, -1, -2, two buckets (nodes 4 and 5) and two split roots (nodes 6
  and 7). \<open>sentinel_file\<close>: two nodes, the higher with \<open>descendants = -1\<close>.
\<close>

definition leaf1 :: "byte list \<Rightarrow> byte list" where
  "leaf1 v = [1,0,0,0, 0,0,0,0, 0,0,0,0] @ v"

definition forest_file :: "byte list" where
  "forest_file =
     leaf1 [0,0,128,63] @ leaf1 [0,0,0,64] @ leaf1 [0,0,128,191] @ leaf1 [0,0,0,192] @
     [2,0,0,0, 0,0,0,0, 1,0,0,0, 0,0,0,0] @
     [2,0,0,0, 2,0,0,0, 3,0,0,0, 0,0,0,0] @
     [4,0,0,0, 5,0,0,0, 4,0,0,0, 0,0,128,63] @
     [4,0,0,0, 4,0,0,0, 5,0,0,0, 0,0,128,191]"

definition sentinel_file :: "byte list" where
  "sentinel_file =
     [5,0,0,0, 0,0,0,0, 0,0,0,0, 0,0,0,0] @
     [255,255,255,255, 1,0,0,0, 0,0,0,0, 0,0,0,0]"

definition forest_resident :: AnnoyIndex where
  "forest_resident =
     snd (the (Load (Angular ieee) (os_with ''forest.ann'' forest_file) ''forest.ann'' True (NewAnnoyIndex 1)))"

definition forest_mapped :: AnnoyIndex where
  "forest_mapped =
     snd (the (Load (Angular ieee) (os_with ''forest.ann'' forest_file) ''forest.ann'' False (NewAnnoyIndex 1)))"

definition sentinel_index :: AnnoyIndex where
  "sentinel_index =
     snd (the (Load (Angular ieee) (os_with ''sentinel.ann'' sentinel_file) ''sentinel.ann'' False (NewAnnoyIndex 1)))"




definition single_file :: "byte list" where
  "single_file = leaf1 [0,0,128,63] @ [1,0,0,0, 0,0,0,0, 0,0,0,0, 0,0,0,0]"

definition single_mapped :: AnnoyIndex where
  "single_mapped =
     snd (the (Load (Angular ieee) (os_with ''single.ann'' single_file) ''single.ann'' False (NewAnnoyIndex 1)))"

section \<open>Heap order\<close>


definition parent :: "nat \<Rightarrow> nat" where
  "parent j = (j - 1) div 2"




definition child_pick :: "PriorityQueue \<Rightarrow> nat \<Rightarrow> nat \<Rightarrow> nat" where
  "child_pick h i n = (if 2 * i + 2 < n \<and> Less h (2 * i + 2) (2 * i + 1) then 2 * i + 2 else 2 * i + 1)"


section \<open>States of the query loop\<close>



section \<open>Further example files\<close>

text \<open>
  \<open>hole_file\<close> (dimensionality 1): the items 0 and 2 with the vectors 1 and -1, node 1
  left empty (\<open>descendants = 0\<close>), and the root bucket 3 that lists 0, 1 and 2.
  \<open>regrown_file\<close>: the forest rebuilt with a fifth item and one tree, again 8 nodes: the
  buckets 5 = {0,1} and 6 = {2,3,4} under the split root 7.
\<close>

definition hole_file :: "byte list" where
  "hole_file =
     leaf1 [0,0,128,63] @ replicate 16 0 @ leaf1 [0,0,128,191] @
     [3,0,0,0, 0,0,0,0, 1,0,0,0, 2,0,0,0]"

definition hole_mapped :: AnnoyIndex where
  "hole_mapped =
     snd (the (Load (Angular ieee) (os_with ''hole.ann'' hole_file) ''hole.ann'' False (NewAnnoyIndex 1)))"

definition regrown_file :: "byte list" where
  "regrown_file =
     leaf1 [0,0,128,63] @ leaf1 [0,0,0,64] @ leaf1 [0,0,128,191] @ leaf1 [0,0,0,192] @
     leaf1 [0,0,64,192] @
     [2,0,0,0, 0,0,0,0, 1,0,0,0, 0,0,0,0] @
     [3,0,0,0, 2,0,0,0, 3,0,0,0, 4,0,0,0] @
     [5,0,0,0, 6,0,0,0, 5,0,0,0, 0,0,128,63]"

definition forest_unloaded :: AnnoyIndex where
  "forest_unloaded = snd (Unload (os_with ''forest.ann'' forest_file) forest_resident)"

(*DEFS-END*)

section \<open>The node decoder reads little-endian words\<close>

lemma le_or_add:
  fixes b0 b1 b2 b3 :: byte
  shows "(ucast b0 OR push_bit 8 (ucast b1) OR push_bit 16 (ucast b2) OR push_bit 24 (ucast b3) :: 32 word)
       = ucast b0 + (push_bit 8 (ucast b1) + (push_bit 16 (ucast b2) + push_bit 24 (ucast b3)))"
proof -
  have 3: "(push_bit 16 (ucast b2) :: 32 word) + push_bit 24 (ucast b3) = push_bit 16 (ucast b2) OR push_bit 24 (ucast b3)"
    by (rule disjunctive_add) (auto simp: bit_simps dest: bit_imp_le_length)
  have 2: "(push_bit 8 (ucast b1) :: 32 word) + (push_bit 16 (ucast b2) OR push_bit 24 (ucast b3))
      = push_bit 8 (ucast b1) OR (push_bit 16 (ucast b2) OR push_bit 24 (ucast b3))"
    by (rule disjunctive_add) (auto simp: bit_simps dest: bit_imp_le_length)
  have 1: "(ucast b0 :: 32 word) + (push_bit 8 (ucast b1) OR (push_bit 16 (ucast b2) OR push_bit 24 (ucast b3)))
      = ucast b0 OR (push_bit 8 (ucast b1) OR (push_bit 16 (ucast b2) OR push_bit 24 (ucast b3)))"
    by (rule disjunctive_add) (auto simp: bit_simps dest: bit_imp_le_length)
  show ?thesis by (simp only: 1 2 3)
qed

lemma Uint32_value:
  "Uint32 (b0 # b1 # b2 # b3 # bs) = Some w \<Longrightarrow> unat w = unat b0 + 256 * unat b1 + 65536 * unat b2 + 16777216 * unat b3"
proof -
  assume "Uint32 (b0 # b1 # b2 # b3 # bs) = Some w"
  then have w: "w = ucast b0 + (push_bit 8 (ucast b1) + (push_bit 16 (ucast b2) + push_bit 24 (ucast b3)))"
    by (simp add: Uint32_def le_or_add)
  have b: "unat b0 < 256" "unat b1 < 256" "unat b2 < 256" "unat b3 < 256"
    using unsigned_less[of b0, where 'a=nat] unsigned_less[of b1, where 'a=nat] unsigned_less[of b2, where 'a=nat] unsigned_less[of b3, where 'a=nat] by simp_all
  have uc: "unat (ucast x :: 32 word) = unat x" for x :: byte
    using unsigned_less[of x, where 'a=nat] by (simp add: unsigned_ucast_eq take_bit_nat_eq_self)
  have u1: "unat (push_bit 8 (ucast b1) :: 32 word) = 256 * unat b1"
    using b by (simp add: push_bit_eq_mult unat_word_ariths uc)
  have u2: "unat (push_bit 16 (ucast b2) :: 32 word) = 65536 * unat b2"
    using b by (simp add: push_bit_eq_mult unat_word_ariths uc)
  have u3: "unat (push_bit 24 (ucast b3) :: 32 word) = 16777216 * unat b3"
    using b by (simp add: push_bit_eq_mult unat_word_ariths uc)
  show ?thesis
    unfolding w using b by (simp add: unat_word_ariths uc u1 u2 u3)
qed

lemma those_map_Some:
  "those (map g xs) = Some ys \<Longrightarrow> length ys = length xs \<and> (\<forall>j<length xs. g (xs ! j) = Some (ys ! j))"
proof (induction xs arbitrary: ys)
  case Nil
  then show ?case by simp
next
  case (Cons x xs)
  from Cons.prems obtain y ys' where y: "g x = Some y" and ys': "those (map g xs) = Some ys'" and eq: "ys = y # ys'"
    by (auto split: option.splits)
  from Cons.IH[OF ys'] have ih: "length ys' = length xs" "\<forall>j<length xs. g (xs ! j) = Some (ys' ! j)" by simp_all
  show ?case unfolding eq using y ih by (auto simp: nth_Cons split: nat.splits)
qed

lemma slice_Uint32:
  assumes "slice bs off (off + 4) \<bind> Uint32 = Some w"
  shows "0 \<le> off \<and> off + 4 \<le> int (length bs) \<and> w = le32 bs (nat off)"
proof -
  from assms have r: "0 \<le> off" "off + 4 \<le> int (length bs)"
    and u: "Uint32 (take 4 (drop (nat off) bs)) = Some w"
    by (auto simp: slice_def split: if_splits)
  define k where "k = nat off"
  have len: "k + 4 \<le> length bs" using r by (simp add: k_def)
  have d0: "drop k bs = bs ! k # drop (Suc k) bs"
    using len by (intro Cons_nth_drop_Suc[symmetric]) simp
  have d1: "drop (Suc k) bs = bs ! (Suc k) # drop (Suc (Suc k)) bs"
    using len by (intro Cons_nth_drop_Suc[symmetric]) simp
  have d2: "drop (Suc (Suc k)) bs = bs ! (Suc (Suc k)) # drop (Suc (Suc (Suc k))) bs"
    using len by (intro Cons_nth_drop_Suc[symmetric]) simp
  have d3: "drop (Suc (Suc (Suc k))) bs = bs ! (Suc (Suc (Suc k))) # drop (Suc (Suc (Suc (Suc k)))) bs"
    using len by (intro Cons_nth_drop_Suc[symmetric]) simp
  have t4: "take 4 (a # b # c # d # xs) = [a, b, c, d]" for a b c d :: byte and xs
    by (simp add: numeral_Bit0)
  have s1: "k + 1 = Suc k" "k + 2 = Suc (Suc k)" "k + 3 = Suc (Suc (Suc k))" by simp_all
  have t: "take 4 (drop k bs) = [bs ! k, bs ! (k + 1), bs ! (k + 2), bs ! (k + 3)]"
    by (subst d0, subst d1, subst d2, subst d3, subst t4) (simp only: s1 refl)
  from u have "unat w = unat (bs ! k) + 256 * unat (bs ! (k + 1)) + 65536 * unat (bs ! (k + 2))
                  + 16777216 * unat (bs ! (k + 3))"
    unfolding k_def[symmetric] t by (rule Uint32_value)
  then have "word_of_nat (unat w) = le32 bs k" by (simp only: le32_def)
  then have "w = le32 bs k" by simp
  with r show ?thesis by (simp add: k_def)
qed

lemma read_words_Some:
  assumes "read_words bs off n = Some ws"
  shows "length ws = n \<and> (\<forall>j<n. ws ! j = le32 bs (nat (off + 4 * int j)))"
proof -
  from those_map_Some[OF assms[unfolded read_words_def]]
  have l: "length ws = n"
    and e: "\<forall>j<n. slice bs (off + 4 * int j) (off + 4 + 4 * int j) \<bind> Uint32 = Some (ws ! j)"
    by simp_all
  have "ws ! j = le32 bs (nat (off + 4 * int j))" if "j < n" for j
  proof -
    have a: "off + 4 + 4 * int j = off + 4 * int j + 4" by simp
    from e that have "slice bs (off + 4 * int j) (off + 4 + 4 * int j) \<bind> Uint32 = Some (ws ! j)"
      by blast
    then have "slice bs (off + 4 * int j) ((off + 4 * int j) + 4) \<bind> Uint32 = Some (ws ! j)"
      by (simp only: a)
    from slice_Uint32[OF this] show ?thesis by simp
  qed
  with l show ?thesis by simp
qed

section \<open>Claims\<close>

text \<open>
  C1 (as amended). A record of stride \<open>12 + 4f\<close> that decodes has its \<open>descendants\<close>
  field read little-endian at the record's start. The decoder branches on that field with
  the guard \<open>2 < descendants \<le> K\<close>, \<open>K = f + 2\<close>: inside the guard it reads \<open>K\<close>
  children indices at offset \<open>+4\<close> and materializes no vector; outside it
  (\<open>descendants \<le> 2\<close> or \<open>descendants > K\<close>) it reads exactly 2 children indices at
  offset \<open>+4\<close> and \<open>f\<close> 32-bit little-endian float patterns at offset \<open>+12\<close>.
\<close>

theorem GetNodePtr_layout:
  assumes "GetNodePtr bs (12 + 4 * int f) i = Some nd" and "int f + 2 < 2 ^ 31"
  shows "Descendants nd = le32 bs (nat ((12 + 4 * int f) * sint i)) \<and>
     (2 < sint (Descendants nd) \<and> sint (Descendants nd) \<le> int f + 2 \<longrightarrow>
        V nd = None \<and> length (Children nd) = f + 2 \<and>
        (\<forall>j < f + 2. Children nd ! j = le32 bs (nat ((12 + 4 * int f) * sint i + 4 + 4 * int j)))) \<and>
     (sint (Descendants nd) \<le> 2 \<or> int f + 2 < sint (Descendants nd) \<longrightarrow>
        length (Children nd) = 2 \<and>
        (\<forall>j < 2. Children nd ! j = le32 bs (nat ((12 + 4 * int f) * sint i + 4 + 4 * int j))) \<and>
        (\<exists>vs. V nd = Some vs \<and> length vs = f \<and>
           (\<forall>j < f. vs ! j = le32 bs (nat ((12 + 4 * int f) * sint i + 12 + 4 * int j)))))"
proof -
  define base where "base = (12 + 4 * int f) * sint i"
  have arr: "(12 + 4 * int f - 12) sdiv 4 = int f"
    by (simp add: signed_divide_int_def sgn_if)
  have "word_of_int (int f) + 2 = (word_of_int (int f + 2) :: 32 word)" by simp
  then have K: "sint (word_of_int (int f) + 2 :: 32 word) = int f + 2"
    using assms(2) by (simp only: sint_sbintrunc') (simp add: signed_take_bit_int_eq_self)
  have two: "sint (2 :: 32 word) = 2" by simp
  from assms(1) obtain b d where b: "slice bs base (base + 4) = Some b" and d: "Uint32 b = Some d"
    unfolding GetNodePtr_def base_def[symmetric] Let_def
    by (auto split: bind_splits)
  from b d have "slice bs base (base + 4) \<bind> Uint32 = Some d" by simp
  from slice_Uint32[OF this] have dv: "d = le32 bs (nat base)" by simp
  show ?thesis
  proof (cases "2 <s d \<and> d \<le>s word_of_int (int f) + 2")
    case True
    with assms(1) b d obtain cs where cs: "read_words bs (base + 4) (f + 2) = Some cs"
      and nd: "nd = \<lparr>Descendants = d, Children = cs, Norm = 0, V = None\<rparr>"
      unfolding GetNodePtr_def base_def[symmetric] Let_def arr
      by (auto simp: make_len_def nat_add_distrib split: bind_splits if_splits)
    from True have rng: "2 < sint d \<and> sint d \<le> int f + 2"
      by (simp only: word_sless_alt word_sle_eq K two simp_thms)
    from read_words_Some[OF cs] rng show ?thesis
      unfolding nd base_def[symmetric] by (simp add: dv)
  next
    case False
    with assms(1) b d obtain cs vs where cs: "read_words bs (base + 4) 2 = Some cs"
      and vs: "read_words bs (base + 12) f = Some vs"
      and nd: "nd = \<lparr>Descendants = d, Children = cs, Norm = 0, V = Some vs\<rparr>"
      unfolding GetNodePtr_def base_def[symmetric] Let_def arr
      by (auto simp: make_len_def split: bind_splits if_splits)
    from False have rng: "\<not> (2 < sint d \<and> sint d \<le> int f + 2)"
      by (simp only: word_sless_alt word_sle_eq K two simp_thms)
    from read_words_Some[OF cs] read_words_Some[OF vs] rng show ?thesis
      unfolding nd base_def[symmetric] by (simp add: dv)
  qed
qed

theorem GetNodePtr_layout_witness:
  "GetNodePtr [3,0,0,0, 7,0,0,0, 8,0,0,0, 9,1,0,0] (12 + 4 * int 1) 0
     = Some \<lparr>Descendants = 3, Children = [7, 8, 265], Norm = 0, V = None\<rparr> \<and>
   int 1 + 2 < (2::int) ^ 31 \<and>
   Children \<lparr>Descendants = 3, Children = [7, 8, 265], Norm = 0, V = None\<rparr> ! 2
     = le32 [3,0,0,0, 7,0,0,0, 8,0,0,0, 9,1,0,0] 12"
proof -
  have g: "GetNodePtr [3,0,0,0, 7,0,0,0, 8,0,0,0, 9,1,0,0] (12 + 4 * int 1) 0
     = Some \<lparr>Descendants = 3, Children = [7, 8, 265], Norm = 0, V = None\<rparr>"
    by (simp add: GetNodePtr_def slice_def Uint32_def read_words_def make_len_def
        signed_divide_int_def upt_rec)
  have h: "int 1 + 2 < (2::int) ^ 31" by simp
  from GetNodePtr_layout[OF g h] g h show ?thesis by (simp add: le32_def)
qed

text \<open>
  C1 as stated puts \<open>descendants = 2\<close> in the children-only branch. The decoder's guard
  is \<open>descendants > 2\<close>: with \<open>f = 1\<close> (\<open>K = 3\<close>) a record whose \<open>descendants\<close> is 2
  is decoded with two children and with the vector materialized.
\<close>

theorem GetNodePtr_two_descendants_counterexample:
  "GetNodePtr [2,0,0,0, 7,0,0,0, 8,0,0,0, 9,0,0,0] 16 0
     = Some \<lparr>Descendants = 2, Children = [7, 8], Norm = 0, V = Some [9]\<rparr>"
  by (simp add: GetNodePtr_def slice_def Uint32_def read_words_def make_len_def
        signed_divide_int_def upt_rec)

section \<open>Loading\<close>

lemma smod_nonneg: "0 \<le> a \<Longrightarrow> 0 < b \<Longrightarrow> a smod b = a mod (b::int)"
  by (simp add: signed_modulo_int_def sgn_if)

lemma sdiv_nonneg: "0 \<le> a \<Longrightarrow> 0 < b \<Longrightarrow> a sdiv b = a div (b::int)"
  by (simp add: signed_divide_int_def sgn_if)

lemma NewAnnoyIndex_fields:
  "roots (NewAnnoyIndex f) = []" "nItems (NewAnnoyIndex f) = 0" "nNodes (NewAnnoyIndex f) = 0"
  "nodes (NewAnnoyIndex f) = None" "mmap (NewAnnoyIndex f) = None" "fd (NewAnnoyIndex f) = None"
  "cache (NewAnnoyIndex f) = Map.empty" "idx_f (NewAnnoyIndex f) = f" "idx_s (NewAnnoyIndex f) = 12 + f * 4"
  "idx_k (NewAnnoyIndex f) = word_of_int ((12 + f * 4 - 4) sdiv 4)"
  by (simp_all add: NewAnnoyIndex_def reinitialize_def)

lemma cache_upd_simps [simp]:
  "backing (index\<lparr>cache := c\<rparr>) = backing index"
  "backing (index\<lparr>roots := r\<rparr>) = backing index"
  "backing (index\<lparr>nItems := x\<rparr>) = backing index"
  by (simp_all add: backing_def)

lemma materialize_cong:
  "backing a = backing b \<Longrightarrow> idx_s a = idx_s b \<Longrightarrow> idx_f a = idx_f b \<Longrightarrow> materialize M a i = materialize M b i"
  by (simp add: materialize_def cong: if_cong)

lemma getNode_sound:
  assumes g: "getNode M index i = Some (nd, index')" and r: "readable M index" and m: "norm_only M"
  shows "GetNodePtr (backing index) (idx_s index) i \<noteq> None \<and>
         Descendants nd = Descendants (decoded index i) \<and>
         Children nd = Children (decoded index i) \<and>
         V nd = V (decoded index i) \<and>
         same_store index index' \<and> roots index' = roots index \<and> readable M index'"
proof (cases "mmap index \<noteq> None")
  case True
  with g show ?thesis
    by (auto simp: getNode_def decoded_def readable_def same_store_def split: bind_splits)
next
  case False
  then have coh: "cache_coherent M index" using r by (simp add: readable_def)
  have init: "x = y\<lparr>Norm := Norm x\<rparr>" if "InitNode M y (idx_f index) = Some x" for x y
    using m that unfolding norm_only_def by blast
  show ?thesis
  proof (cases "cache index i")
    case (Some c)
    with g False have e: "nd = c" "index' = index" by (simp_all add: getNode_def)
    from coh Some have mat: "materialize M index i = Some c" by (simp add: cache_coherent_def)
    then obtain n0 where n0: "GetNodePtr (backing index) (idx_s index) i = Some n0"
      and c: "(if V n0 \<noteq> None then InitNode M n0 (idx_f index) else Some n0) = Some c"
      by (auto simp: materialize_def split: bind_splits)
    from c have "c = n0\<lparr>Norm := Norm c\<rparr>"
      using init[of n0 c] by (cases "V n0 \<noteq> None") auto
    then have "Descendants c = Descendants n0 \<and> Children c = Children n0 \<and> V c = V n0"
      by (metis Node.select_convs(1,2,4) Node.surjective Node.update_convs(3))
    with e n0 r show ?thesis by (simp add: decoded_def same_store_def)
  next
    case None
    with g False obtain n0 where n0: "GetNodePtr (backing index) (idx_s index) i = Some n0"
      and c: "(if V n0 \<noteq> None then InitNode M n0 (idx_f index) else Some n0) = Some nd"
      and i': "index' = index\<lparr>cache := (cache index)(i \<mapsto> nd)\<rparr>"
      by (auto simp: getNode_def split: bind_splits)
    from c have "nd = n0\<lparr>Norm := Norm nd\<rparr>"
      using init[of n0 nd] by (cases "V n0 \<noteq> None") auto
    then have f: "Descendants nd = Descendants n0 \<and> Children nd = Children n0 \<and> V nd = V n0"
      by (metis Node.select_convs(1,2,4) Node.surjective Node.update_convs(3))
    have mat: "materialize M index i = Some nd" using n0 c by (simp add: materialize_def)
    have "cache_coherent M index'"
      unfolding cache_coherent_def
    proof (intro allI impI)
      fix j x assume "cache index' j = Some x"
      then have "materialize M index j = Some x"
        using coh mat unfolding i' cache_coherent_def by (auto split: if_splits)
      then show "materialize M index' j = Some x"
        unfolding i' by (simp add: materialize_cong[of "index\<lparr>cache := (cache index)(i \<mapsto> nd)\<rparr>" index])
    qed
    with f n0 i' show ?thesis by (simp add: decoded_def readable_def same_store_def)
  qed
qed

lemma readable_upd [simp]:
  "readable M (index\<lparr>roots := r\<rparr>) = readable M index"
  "readable M (index\<lparr>nItems := x\<rparr>) = readable M index"
  by (simp_all add: readable_def cache_coherent_def materialize_def backing_def cong: if_cong)

lemma decoded_same_store: "same_store a b \<Longrightarrow> decoded b = decoded a"
  by (simp add: decoded_def same_store_def backing_def fun_eq_iff)

lemma same_store_upd [simp]:
  "same_store a (b\<lparr>roots := r\<rparr>) = same_store a b"
  "same_store a (b\<lparr>cache := c\<rparr>) = same_store a b"
  by (simp_all add: same_store_def)

lemma same_store_refl [simp]: "same_store a a"
  by (simp add: same_store_def)

lemma same_store_trans: "same_store a b \<Longrightarrow> same_store b c \<Longrightarrow> same_store a c"
  by (simp add: same_store_def)

lemma scan_roots_run:
  assumes "scan_roots M j m index = Some (m', index')" and "readable M index" and "norm_only M"
    and "m \<noteq> - 1"
  shows "m' = m \<and>
         roots index' = roots index @
           map word_of_nat (takeWhile (\<lambda>i. Descendants (decoded index (word_of_nat i)) = m) (rev [0..<j])) \<and>
         same_store index index' \<and> readable M index'"
  using assms
proof (induction j arbitrary: index)
  case 0
  then show ?case by simp
next
  case (Suc j)
  from Suc.prems(1) obtain nd ix1 where g: "getNode M index (word_of_nat j) = Some (nd, ix1)"
    by (auto split: bind_splits)
  from getNode_sound[OF g Suc.prems(2,3)]
  have d: "Descendants nd = Descendants (decoded index (word_of_nat j))"
    and ss: "same_store index ix1" and rts: "roots ix1 = roots index" and r1: "readable M ix1" by simp_all
  show ?case
  proof (cases "Descendants nd = m")
    case True
    let ?ix2 = "ix1\<lparr>roots := roots ix1 @ [word_of_nat j]\<rparr>"
    from Suc.prems(1) g True have rec: "scan_roots M j m ?ix2 = Some (m', index')"
      by (simp add: Let_def)
    have r2: "readable M ?ix2" using r1 by simp
    have ss2: "same_store index ?ix2" using ss by simp
    note ih = Suc.IH[OF rec r2 Suc.prems(3,4), unfolded decoded_same_store[OF ss2]]
    from ih have "same_store index index'" using same_store_trans[OF ss2] by blast
    with ih True d show ?thesis by (simp add: rts)
  next
    case False
    with Suc.prems(1) g Suc.prems(4) have "m' = m" "index' = ix1" by (simp_all add: Let_def)
    then show ?thesis using False d r1 ss rts by simp
  qed
qed

lemma drop_duplicate_root_run:
  assumes "drop_duplicate_root M index = Some index'" and "readable M index" and "norm_only M"
  shows "roots index' =
           (if 1 < length (roots index) \<and>
               Children (decoded index (hd (roots index))) ! 0 = Children (decoded index (last (roots index))) ! 0
            then butlast (roots index) else roots index) \<and>
         same_store index index' \<and> readable M index'"
proof (cases "1 < length (roots index)")
  case False
  with assms show ?thesis by (simp add: drop_duplicate_root_def)
next
  case True
  with assms(1) obtain a ix1 b ix2 ca cb where
    ga: "getNode M index (hd (roots index)) = Some (a, ix1)" and ca: "index_at (Children a) 0 = Some ca"
    and gb: "getNode M ix1 (last (roots ix1)) = Some (b, ix2)" and cb: "index_at (Children b) 0 = Some cb"
    and res: "index' = (if ca = cb then ix2\<lparr>roots := butlast (roots ix2)\<rparr> else ix2)"
    by (auto simp: drop_duplicate_root_def split: bind_splits)
  from getNode_sound[OF ga assms(2,3)]
  have a: "Children a = Children (decoded index (hd (roots index)))"
    and s1: "same_store index ix1" and r1: "roots ix1 = roots index" and rd1: "readable M ix1" by simp_all
  from getNode_sound[OF gb rd1 assms(3)]
  have b: "Children b = Children (decoded index (last (roots index)))"
    and s2: "same_store ix1 ix2" and r2: "roots ix2 = roots index" and rd2: "readable M ix2"
    by (simp_all add: decoded_same_store[OF s1] r1)
  from ca a have ca': "ca = Children (decoded index (hd (roots index))) ! 0"
    by (auto simp: index_at_def split: if_splits)
  from cb b have cb': "cb = Children (decoded index (last (roots index))) ! 0"
    by (auto simp: index_at_def split: if_splits)
  have ss: "same_store index ix2" by (rule same_store_trans[OF s1 s2])
  show ?thesis using True res ca' cb' ss rd2 r2 by (auto simp: readable_def cache_coherent_def materialize_def backing_def cong: if_cong)
qed

lemma discover_roots_run:
  assumes d: "discover_roots M (int (length content)) index = Some index'"
    and bk: "nodes index = Some content"
    and rd: "readable M index" and no: "norm_only M"
    and s: "0 < idx_s index" and dv: "int (length content) mod idx_s index = 0" and ne: "content \<noteq> []"
    and n: "length content div nat (idx_s index) < 2 ^ 31"
  defines "desc \<equiv> \<lambda>i. Descendants (the (GetNodePtr content (idx_s index) (word_of_nat i)))"
    and "child0 \<equiv> \<lambda>i. Children (the (GetNodePtr content (idx_s index) (word_of_nat i))) ! 0"
    and "n \<equiv> length content div nat (idx_s index)"
  assumes sentinel: "desc (n - 1) \<noteq> - 1"
  shows "roots index' = map word_of_nat (spec_roots desc child0 n) \<and> nItems index' = desc (n - 1) \<and>
         nNodes index' = word_of_nat n \<and> readable M index'"
proof -
  have npos: "0 < n"
  proof -
    have "idx_s index dvd int (length content)" using dv by (simp add: dvd_eq_mod_eq_0)
    moreover have "0 < int (length content)" using ne by simp
    ultimately have "idx_s index \<le> int (length content)" by (rule zdvd_imp_le)
    then have "nat (idx_s index) \<le> length content" by simp
    then show ?thesis using s by (simp add: n_def div_greater_zero_iff)
  qed
  define ix0 where "ix0 = index\<lparr>nNodes := word_of_int (int (length content) sdiv idx_s index), roots := []\<rparr>"
  have dec0: "decoded ix0 i = the (GetNodePtr content (idx_s index) i)" for i
    by (simp add: decoded_def ix0_def backing_def bk)
  have rd0: "readable M ix0"
    using rd by (simp add: ix0_def readable_def cache_coherent_def materialize_def backing_def cong: if_cong)
  have nn: "int (length content) sdiv idx_s index = int n"
    using s by (simp add: sdiv_nonneg n_def zdiv_int)
  have i0: "nNodes ix0 - 1 = word_of_nat (n - 1)"
    using npos by (simp add: ix0_def nn)
  have si0: "sint (word_of_nat (n - 1) :: 32 word) = int (n - 1)"
  proof -
    have "int (n - 1) < 2 ^ 31" using n by (simp add: n_def)
    then have "signed_take_bit 31 (int (n - 1)) = int (n - 1)"
      by (intro signed_take_bit_int_eq_self) simp_all
    then show ?thesis
      using sint_sbintrunc'[of "int (n - 1)", where 'a=32] by simp
  qed
  have cnt: "(if 0 \<le>s nNodes ix0 - 1 then Suc (nat (sint (nNodes ix0 - 1))) else 0) = Suc (n - 1)"
    unfolding i0 word_sle_eq si0 by simp
  from d obtain m ix3 ix4 where
    sc: "scan_roots M (Suc (n - 1)) (- 1) ix0 = Some (m, ix3)"
    and dd: "drop_duplicate_root M ix3 = Some ix4"
    and res: "index' = ix4\<lparr>nItems := m\<rparr>"
    unfolding discover_roots_def Let_def ix0_def[symmetric]
    by (auto simp: cnt split: bind_splits)
  from sc obtain nd ix1 where g: "getNode M ix0 (word_of_nat (n - 1)) = Some (nd, ix1)"
    and rec: "scan_roots M (n - 1) (Descendants nd) (ix1\<lparr>roots := roots ix1 @ [word_of_nat (n - 1)]\<rparr>) = Some (m, ix3)"
    by (auto simp: Let_def split: bind_splits)
  from getNode_sound[OF g rd0 no]
  have dnd: "Descendants nd = desc (n - 1)" and ss1: "same_store ix0 ix1" and r1: "roots ix1 = []"
    and rd1: "readable M ix1"
    by (simp_all add: dec0 desc_def) (simp add: ix0_def)
  let ?ix2 = "ix1\<lparr>roots := roots ix1 @ [word_of_nat (n - 1)]\<rparr>"
  have ss2: "same_store ix0 ?ix2" using ss1 by simp
  have rd2: "readable M ?ix2" using rd1 by simp
  have sen: "Descendants nd \<noteq> - 1" using sentinel dnd by simp
  note run = scan_roots_run[OF rec rd2 no sen, unfolded decoded_same_store[OF ss2] dec0 dnd]
  have revn: "rev [0..<n] = (n - 1) # rev [0..<n - 1]"
    using npos by (cases n) simp_all
  from run have m: "m = desc (n - 1)" and ss3: "same_store ?ix2 ix3" and rd3: "readable M ix3" by simp_all
  from run have rts3: "roots ix3 = map word_of_nat (spec_scan desc n)"
    by (simp add: r1 spec_scan_def revn desc_def)
  have ss03: "same_store ix0 ix3" by (rule same_store_trans[OF ss2 ss3])
  note dr = drop_duplicate_root_run[OF dd rd3 no, unfolded decoded_same_store[OF ss03] dec0 rts3]
  from dr have ss4: "same_store ix3 ix4" and rd4: "readable M ix4" by simp_all
  have hl: "hd (map word_of_nat rs :: int32 list) = word_of_nat (hd rs) \<and> last (map word_of_nat rs :: int32 list) = word_of_nat (last rs)"
    if "1 < length rs" for rs :: "nat list"
    using that by (cases rs) (simp_all add: last_map)
  have rts4: "roots ix4 = map word_of_nat (spec_roots desc child0 n)"
  proof (cases "1 < length (spec_scan desc n)")
    case True
    from dr hl[OF True] show ?thesis
      by (simp add: spec_roots_def Let_def True child0_def map_butlast)
  next
    case False
    with dr show ?thesis by (simp add: spec_roots_def Let_def)
  qed
  have "nNodes ix4 = nNodes ix0"
    using same_store_trans[OF ss03 ss4] by (simp add: same_store_def)
  then have nn4: "nNodes ix4 = word_of_nat n" by (simp add: ix0_def nn)
  show ?thesis using rts4 m nn4 rd4 by (simp add: res)
qed

lemma file_Read_whole:
  "length content \<le> read_len os (length content) \<Longrightarrow> file_Read os content = content"
  by (simp add: file_Read_def Let_def min_def)

lemma norm_only_Angular: "norm_only (Angular U)"
  by (auto simp: norm_only_def Angular_def Angular_InitNode_def split: bind_splits)

lemma cache_coherent_empty: "cache index = Map.empty \<Longrightarrow> cache_coherent M index"
  by (simp add: cache_coherent_def)

lemma Load_is_Some:
  "(case Load M os name memory index of Some (None, _) \<Rightarrow> True | _ \<Rightarrow> False) \<Longrightarrow>
   Load M os name memory index = Some (None, snd (the (Load M os name memory index)))"
  by (auto split: option.splits prod.splits)

lemma forest_resident_loaded:
  "Load (Angular ieee) (os_with ''forest.ann'' forest_file) ''forest.ann'' True (NewAnnoyIndex 1)
     = Some (None, forest_resident)"
  unfolding forest_resident_def by (rule Load_is_Some) code_simp

lemma forest_mapped_loaded:
  "Load (Angular ieee) (os_with ''forest.ann'' forest_file) ''forest.ann'' False (NewAnnoyIndex 1)
     = Some (None, forest_mapped)"
  unfolding forest_mapped_def by (rule Load_is_Some) code_simp

lemma forest_file_length: "length forest_file = 128"
  by (simp add: forest_file_def leaf1_def)

text \<open>
  C9. When the file is empty, or its length is not a multiple of the record stride
  \<open>s > 0\<close>, \<open>Load\<close> returns an error, and the roots, the item count, the node count,
  the backing bytes, the mapping and the cache are those the index had before the call:
  for an index that was not loaded they stay empty.
\<close>

theorem Load_rejects_bad_size:
  assumes "files os filename = Some content" and "\<not> stat_fails os" and "0 < idx_s index"
    and "length content = 0 \<or> int (length content) mod idx_s index \<noteq> 0"
  shows "\<exists>index'. Load M os filename memory index =
             Some (Some (if length content = 0 then SizeIsZero else SizeNotMultiple), index') \<and>
           roots index' = roots index \<and> nItems index' = nItems index \<and>
           nNodes index' = nNodes index \<and> nodes index' = nodes index \<and>
           mmap index' = mmap index \<and> cache index' = cache index"
  using assms by (auto simp: Load_def Let_def smod_nonneg)

theorem Load_rejects_bad_size_witness:
  "files (os_with ''short.ann'' (replicate 15 0)) ''short.ann'' = Some (replicate 15 0) \<and>
   \<not> stat_fails (os_with ''short.ann'' (replicate 15 0)) \<and>
   0 < idx_s (NewAnnoyIndex 1) \<and>
   int (length (replicate 15 (0::byte))) mod idx_s (NewAnnoyIndex 1) \<noteq> 0 \<and>
   (\<exists>index'. Load (Angular ieee) (os_with ''short.ann'' (replicate 15 0)) ''short.ann'' True (NewAnnoyIndex 1) =
             Some (Some SizeNotMultiple, index') \<and>
           roots index' = [] \<and> nItems index' = 0 \<and> nNodes index' = 0 \<and> nodes index' = None)"
proof -
  have 1: "files (os_with ''short.ann'' (replicate 15 0)) ''short.ann'' = Some (replicate 15 0)"
    by (simp add: os_with_def)
  have 2: "\<not> stat_fails (os_with ''short.ann'' (replicate 15 0))" by (simp add: os_with_def)
  have 3: "0 < idx_s (NewAnnoyIndex 1)" by (simp add: NewAnnoyIndex_fields)
  have 4: "int (length (replicate 15 (0::byte))) mod idx_s (NewAnnoyIndex 1) \<noteq> 0"
    by (simp add: NewAnnoyIndex_fields)
  from Load_rejects_bad_size[OF 1 2 3 disjI2[OF 4], of "Angular ieee" True]
  obtain index' where "Load (Angular ieee) (os_with ''short.ann'' (replicate 15 0)) ''short.ann'' True (NewAnnoyIndex 1) =
             Some (Some SizeNotMultiple, index')"
    and "roots index' = []" "nItems index' = 0" "nNodes index' = 0" "nodes index' = None"
    by (auto simp: NewAnnoyIndex_fields)
  with 1 2 3 4 show ?thesis by blast
qed

text \<open>
  C2 (as amended). Take an index with a positive record stride, the angular metric, and a
  file of fewer than \<open>2 ^ 31\<close> records on which \<open>Load\<close> returns without error, in mapped
  mode, or in resident mode when the one call of \<open>Read\<close> has delivered the whole file and
  every node the cache holds on entry is the node a lookup in this file would store (so
  when the cache is empty, as on a newly constructed index). \<open>Load\<close> scans the node
  indices from the highest down and tracks \<open>m\<close>, which starts as the sentinel \<open>-1\<close>.
  Provided the \<open>descendants\<close> value of the highest node is not \<open>-1\<close>, \<open>m\<close> is that
  value, the roots collected are the nodes met while their \<open>descendants\<close> equals \<open>m\<close>, up
  to the first node that differs; the last root found is then dropped when more than one
  was found and the first and the last have the same first child; the item count is \<open>m\<close>.
\<close>

theorem Load_discovers_roots:
  assumes load: "Load (Angular U) os filename memory index = Some (None, index')"
    and fl: "files os filename = Some content"
    and s: "0 < idx_s index"
    and n: "length content div nat (idx_s index) < 2 ^ 31"
    and res: "memory \<longrightarrow> length content \<le> read_len os (length content) \<and>
                cache_coherent (Angular U) (index\<lparr>nodes := Some content\<rparr>)"
  defines "desc \<equiv> \<lambda>i. Descendants (the (GetNodePtr content (idx_s index) (word_of_nat i)))"
    and "child0 \<equiv> \<lambda>i. Children (the (GetNodePtr content (idx_s index) (word_of_nat i))) ! 0"
    and "n \<equiv> length content div nat (idx_s index)"
  assumes sentinel: "desc (n - 1) \<noteq> - 1"
  shows "roots index' = map word_of_nat (spec_roots desc child0 n) \<and> nItems index' = desc (n - 1)"
proof -
  let ?sz = "int (length content)"
  from load fl s have ne: "content \<noteq> []" and dv: "?sz mod idx_s index = 0"
    by (auto simp: Load_def Let_def smod_nonneg split: if_splits)
  show ?thesis
  proof (cases memory)
    case True
    with res have full: "file_Read os content = content"
      and coh: "cache_coherent (Angular U) (index\<lparr>nodes := Some content\<rparr>)"
      by (simp_all add: file_Read_whole)
    let ?ix = "index\<lparr>fd := Some filename, mmap := None, nodes := Some content\<rparr>"
    from load fl s True have d: "discover_roots (Angular U) ?sz ?ix = Some index'"
      by (auto simp: Load_def Let_def smod_nonneg full split: if_splits)
    have rd: "readable (Angular U) ?ix"
      using coh by (simp add: readable_def cache_coherent_def materialize_def backing_def cong: if_cong)
    from discover_roots_run[OF d _ rd norm_only_Angular, of] s dv ne n sentinel
    show ?thesis by (simp add: desc_def child0_def n_def)
  next
    case False
    let ?ix = "index\<lparr>fd := Some filename, mmap := Some content, nodes := Some content\<rparr>"
    from load fl s False have d: "discover_roots (Angular U) ?sz ?ix = Some index'"
      by (auto simp: Load_def Let_def smod_nonneg split: if_splits)
    have rd: "readable (Angular U) ?ix" by (simp add: readable_def)
    from discover_roots_run[OF d _ rd norm_only_Angular, of] s dv ne n sentinel
    show ?thesis by (simp add: desc_def child0_def n_def)
  qed
qed

text \<open>
  The forest file loaded in resident mode into a newly constructed index: the scan stops at
  node 5, the roots are 7 and 6, and there are 4 items.
\<close>

theorem Load_discovers_roots_witness:
  "Load (Angular ieee) (os_with ''forest.ann'' forest_file) ''forest.ann'' True (NewAnnoyIndex 1)
     = Some (None, forest_resident) \<and>
   files (os_with ''forest.ann'' forest_file) ''forest.ann'' = Some forest_file \<and>
   0 < idx_s (NewAnnoyIndex 1) \<and>
   length forest_file div nat (idx_s (NewAnnoyIndex 1)) < 2 ^ 31 \<and>
   length forest_file \<le> read_len (os_with ''forest.ann'' forest_file) (length forest_file) \<and>
   cache_coherent (Angular ieee) ((NewAnnoyIndex 1)\<lparr>nodes := Some forest_file\<rparr>) \<and>
   Descendants (the (GetNodePtr forest_file (idx_s (NewAnnoyIndex 1)) 7)) \<noteq> - 1 \<and>
   roots forest_resident = [7, 6] \<and> nItems forest_resident = 4"
proof -
  let ?os = "os_with ''forest.ann'' forest_file"
  let ?ix = "NewAnnoyIndex 1"
  have fl: "files ?os ''forest.ann'' = Some forest_file" by (simp add: os_with_def)
  have rl: "length forest_file \<le> read_len ?os (length forest_file)" by (simp add: os_with_def)
  have coh: "cache_coherent (Angular ieee) (?ix\<lparr>nodes := Some forest_file\<rparr>)"
    by (simp add: cache_coherent_empty NewAnnoyIndex_fields)
  have res: "True \<longrightarrow> length forest_file \<le> read_len ?os (length forest_file) \<and>
               cache_coherent (Angular ieee) (?ix\<lparr>nodes := Some forest_file\<rparr>)"
    using rl coh by simp
  have s: "0 < idx_s ?ix" by (simp add: NewAnnoyIndex_fields)
  have n: "length forest_file div nat (idx_s ?ix) < 2 ^ 31"
    by (simp add: NewAnnoyIndex_fields forest_file_length)
  have n8: "length forest_file div nat (idx_s ?ix) = 8"
    by (simp add: NewAnnoyIndex_fields forest_file_length)
  have sen: "Descendants (the (GetNodePtr forest_file (idx_s ?ix) (word_of_nat (length forest_file div nat (idx_s ?ix) - 1)))) \<noteq> - 1"
    unfolding n8 by code_simp
  have sen': "Descendants (the (GetNodePtr forest_file (idx_s ?ix) 7)) \<noteq> - 1"
    by code_simp
  have ev: "map word_of_nat
       (spec_roots (\<lambda>i. Descendants (the (GetNodePtr forest_file (idx_s ?ix) (word_of_nat i))))
          (\<lambda>i. Children (the (GetNodePtr forest_file (idx_s ?ix) (word_of_nat i))) ! 0) 8) = [7, 6 :: int32]"
    by code_simp
  have ev2: "Descendants (the (GetNodePtr forest_file (idx_s ?ix) (word_of_nat (8 - 1)))) = 4"
    by code_simp
  from Load_discovers_roots[OF forest_resident_loaded fl s n res sen]
  have "roots forest_resident = [7, 6] \<and> nItems forest_resident = 4"
    unfolding n8 ev ev2 .
  with forest_resident_loaded fl rl coh s n sen' show ?thesis by simp
qed

text \<open>
  C2 as stated takes \<open>m\<close> from the first node visited. In \<open>sentinel_file\<close> that node
  has \<open>descendants = -1\<close>, the value by which the scan marks \<open>m\<close> as not set: the scan
  collects the next node whatever its value (5) and makes that the item count, where the
  statement gives the single root 1.
\<close>

theorem Load_sentinel_counterexample:
  "Load (Angular ieee) (os_with ''sentinel.ann'' sentinel_file) ''sentinel.ann'' False (NewAnnoyIndex 1)
     = Some (None, sentinel_index) \<and>
   roots sentinel_index = [1, 0] \<and> nItems sentinel_index = 5 \<and>
   Descendants (the (GetNodePtr sentinel_file 16 1)) = - 1 \<and>
   map word_of_nat
     (spec_roots (\<lambda>i. Descendants (the (GetNodePtr sentinel_file 16 (word_of_nat i))))
        (\<lambda>i. Children (the (GetNodePtr sentinel_file 16 (word_of_nat i))) ! 0) 2) = [1 :: int32]"
proof -
  have "Load (Angular ieee) (os_with ''sentinel.ann'' sentinel_file) ''sentinel.ann'' False (NewAnnoyIndex 1)
     = Some (None, sentinel_index)"
    unfolding sentinel_index_def by (rule Load_is_Some) code_simp
  moreover have "roots sentinel_index = [1, 0] \<and> nItems sentinel_index = 5"
    by code_simp
  moreover have "Descendants (the (GetNodePtr sentinel_file 16 1)) = - 1" by code_simp
  moreover have "map word_of_nat
     (spec_roots (\<lambda>i. Descendants (the (GetNodePtr sentinel_file 16 (word_of_nat i))))
        (\<lambda>i. Children (the (GetNodePtr sentinel_file 16 (word_of_nat i))) ! 0) 2) = [1 :: int32]"
    by code_simp
  ultimately show ?thesis by simp
qed

section \<open>The frontier and one step of the query\<close>




lemma Swap_length [simp]: "length (Swap h i j) = length h"
  by (simp add: Swap_def)




declare heap_up.simps [simp del] heap_down.simps [simp del]


lemma heap_down_unfold:
  "heap_down h i n =
     (if n \<le> 2 * i + 1 \<or> \<not> Less h (child_pick h i n) i then h
      else heap_down (Swap h i (child_pick h i n)) (child_pick h i n) n)"
  by (subst heap_down.simps) (simp add: Let_def child_pick_def)

lemma heap_down_induct2:
  assumes "\<And>h i n. (2 * i + 1 < n \<Longrightarrow> Less h (child_pick h i n) i \<Longrightarrow>
              P (Swap h i (child_pick h i n)) (child_pick h i n) n) \<Longrightarrow> P h i n"
  shows "P h i n"
proof (induction h i n rule: heap_down.induct)
  case (1 h i n)
  show ?case
  proof (rule assms)
    assume a: "2 * i + 1 < n" and b: "Less h (child_pick h i n) i"
    have eq: "(if 2 * i + 1 + 1 < n \<and> Less h (2 * i + 1 + 1) (2 * i + 1) then 2 * i + 1 + 1 else 2 * i + 1)
                = child_pick h i n"
      by (simp add: child_pick_def)
    have "P (Swap h i (if 2 * i + 1 + 1 < n \<and> Less h (2 * i + 1 + 1) (2 * i + 1) then 2 * i + 1 + 1 else 2 * i + 1))
            (if 2 * i + 1 + 1 < n \<and> Less h (2 * i + 1 + 1) (2 * i + 1) then 2 * i + 1 + 1 else 2 * i + 1) n"
    proof (rule "1.IH"[OF refl _ refl])
      show "\<not> n \<le> 2 * i + 1" using a by simp
      show "\<not> \<not> Less h (if 2 * i + 1 + 1 < n \<and> Less h (2 * i + 1 + 1) (2 * i + 1) then 2 * i + 1 + 1 else 2 * i + 1) i"
        using b by (simp only: eq) simp
    qed
    then show "P (Swap h i (child_pick h i n)) (child_pick h i n) n"
      by (simp only: eq)
  qed
qed







lemma heap_up_unfold:
  "heap_up h j =
     (if parent j = j \<or> \<not> Less h j (parent j) then h else heap_up (Swap h (parent j) j) (parent j))"
  by (subst heap_up.simps) (simp add: Let_def parent_def)

lemma heap_up_induct2:
  assumes "\<And>h j. (parent j \<noteq> j \<Longrightarrow> Less h j (parent j) \<Longrightarrow> P (Swap h (parent j) j) (parent j)) \<Longrightarrow> P h j"
  shows "P h j"
proof (induction h j rule: heap_up.induct)
  case (1 h j)
  show ?case
  proof (rule assms)
    assume "parent j \<noteq> j" and "Less h j (parent j)"
    then have "P (Swap h ((j - 1) div 2) j) ((j - 1) div 2)"
      by (intro "1.IH"[OF refl]) (simp add: parent_def)
    then show "P (Swap h (parent j) j) (parent j)" by (simp only: parent_def)
  qed
qed




lemma heap_up_length [simp]: "length (heap_up h j) = length h"
proof (induction h j rule: heap_up_induct2)
  case (1 h j)
  then show ?case by (subst heap_up_unfold) auto
qed


lemma heap_down_length [simp]: "length (heap_down h i n) = length h"
proof (induction h i n rule: heap_down_induct2)
  case (1 h i n)
  then show ?case by (subst heap_down_unfold) auto
qed





















lemma single_mapped_loaded:
  "Load (Angular ieee) (os_with ''single.ann'' single_file) ''single.ann'' False (NewAnnoyIndex 1)
     = Some (None, single_mapped)"
  unfolding single_mapped_def by (rule Load_is_Some) code_simp






section \<open>The angular distance\<close>




section \<open>The result of a query and the cache across loads\<close>

lemma hole_mapped_loaded:
  "Load (Angular ieee) (os_with ''hole.ann'' hole_file) ''hole.ann'' False (NewAnnoyIndex 1)
     = Some (None, hole_mapped)"
  unfolding hole_mapped_def by (rule Load_is_Some) code_simp

text \<open>
  C4 (the code differs). A query for the vector 1 on \<open>hole_file\<close> with \<open>n = 3\<close> and the
  default budget collects the candidates 0, 1 and 2, of which 0 and 2 are singleton leaves.
  \<open>nnsDist\<close> is allocated with one entry for every unique candidate and only the leaves
  are written, so one zero pair stays: three indices and three distances are returned, item
  0 twice with the distance 0, where the claim has two. With \<open>n = 2\<close> the two results are
  both item 0 and item 2 is lost. The order in which the runtime visits the map makes no
  difference.
\<close>

theorem getAllNns_pads_result:
  "Load (Angular ieee) (os_with ''hole.ann'' hole_file) ''hole.ann'' False (NewAnnoyIndex 1)
     = Some (None, hole_mapped) \<and>
   roots hole_mapped = [3] \<and> nItems hole_mapped = 3 \<and>
   map_option (map_option (\<lambda>st. fst (snd st)))
     (nns_loop (Angular ieee) [0x3F800000] 3 (initial_frontier (roots hole_mapped), [], hole_mapped)) =
     Some (Some [0, 1, 2]) \<and>
   map (\<lambda>j. Descendants (the (GetNodePtr hole_file 16 j))) [0, 1, 2] = [1, 0, 1] \<and>
   map_option (map_option fst) (GetNnsByVector rt_forward (Angular ieee) hole_mapped [0x3F800000] 3 (- 1)) =
     Some (Some ([0, 0, 2], [0, 0, 0x40000000])) \<and>
   map_option (map_option fst) (GetNnsByVector rt_backward (Angular ieee) hole_mapped [0x3F800000] 3 (- 1)) =
     Some (Some ([0, 0, 2], [0, 0, 0x40000000])) \<and>
   map_option (map_option fst) (GetNnsByVector rt_forward (Angular ieee) hole_mapped [0x3F800000] 2 (- 1)) =
     Some (Some ([0, 0], [0, 0]))"
proof -
  have 1: "roots hole_mapped = [3] \<and> nItems hole_mapped = 3" by code_simp
  have 2: "map_option (map_option (\<lambda>st. fst (snd st)))
     (nns_loop (Angular ieee) [0x3F800000] 3 (initial_frontier (roots hole_mapped), [], hole_mapped)) =
     Some (Some [0, 1, 2])" by code_simp
  have 3: "map (\<lambda>j. Descendants (the (GetNodePtr hole_file 16 j))) [0, 1, 2] = [1, 0, 1]" by code_simp
  have 4: "map_option (map_option fst) (GetNnsByVector rt_forward (Angular ieee) hole_mapped [0x3F800000] 3 (- 1)) =
     Some (Some ([0, 0, 2], [0, 0, 0x40000000]))" by code_simp
  have 5: "map_option (map_option fst) (GetNnsByVector rt_backward (Angular ieee) hole_mapped [0x3F800000] 3 (- 1)) =
     Some (Some ([0, 0, 2], [0, 0, 0x40000000]))" by code_simp
  have 6: "map_option (map_option fst) (GetNnsByVector rt_forward (Angular ieee) hole_mapped [0x3F800000] 2 (- 1)) =
     Some (Some ([0, 0], [0, 0]))" by code_simp
  from hole_mapped_loaded 1 2 3 4 5 6 show ?thesis by simp
qed

text \<open>
  C8 (the code differs). \<open>Unload\<close> resets the descriptor, the backing bytes, the counts and
  the roots, and leaves the node cache as it is: after the forest has been loaded in
  resident mode and unloaded, the cache still holds the nodes 5, 6 and 7 that the root scan
  looked up. When the file has been replaced by \<open>regrown_file\<close> and is loaded again, the
  scan finds those nodes in the cache: the index reports the roots 7 and 6 and 4 items,
  where a newly constructed index reports the root 7 and 5 items.
\<close>

theorem Unload_keeps_cache:
  "Load (Angular ieee) (os_with ''forest.ann'' forest_file) ''forest.ann'' True (NewAnnoyIndex 1)
     = Some (None, forest_resident) \<and>
   fst (Unload (os_with ''forest.ann'' forest_file) forest_resident) = None \<and>
   nodes forest_unloaded = None \<and> roots forest_unloaded = [] \<and>
   nItems forest_unloaded = 0 \<and> nNodes forest_unloaded = 0 \<and>
   map (cache forest_unloaded) [5, 6, 7] =
     [Some \<lparr>Descendants = 2, Children = [2, 3], Norm = 0, V = Some [0]\<rparr>,
      Some \<lparr>Descendants = 4, Children = [5, 4], Norm = 0x3F800000, V = Some [0x3F800000]\<rparr>,
      Some \<lparr>Descendants = 4, Children = [4, 5], Norm = 0x3F800000, V = Some [0xBF800000]\<rparr>] \<and>
   map_option (\<lambda>r. (fst r, roots (snd r), GetNItems (snd r), GetNTrees (snd r)))
     (Load (Angular ieee) (os_with ''forest.ann'' regrown_file) ''forest.ann'' True forest_unloaded) =
     Some (None, [7, 6], 4, 2) \<and>
   map_option (\<lambda>r. (fst r, roots (snd r), GetNItems (snd r), GetNTrees (snd r)))
     (Load (Angular ieee) (os_with ''forest.ann'' regrown_file) ''forest.ann'' True (NewAnnoyIndex 1)) =
     Some (None, [7], 5, 1)"
proof -
  have 1: "fst (Unload (os_with ''forest.ann'' forest_file) forest_resident) = None" by code_simp
  have 2: "nodes forest_unloaded = None \<and> roots forest_unloaded = [] \<and>
   nItems forest_unloaded = 0 \<and> nNodes forest_unloaded = 0" by code_simp
  have 3: "map (cache forest_unloaded) [5, 6, 7] =
     [Some \<lparr>Descendants = 2, Children = [2, 3], Norm = 0, V = Some [0]\<rparr>,
      Some \<lparr>Descendants = 4, Children = [5, 4], Norm = 0x3F800000, V = Some [0x3F800000]\<rparr>,
      Some \<lparr>Descendants = 4, Children = [4, 5], Norm = 0x3F800000, V = Some [0xBF800000]\<rparr>]"
    by code_simp
  have 4: "map_option (\<lambda>r. (fst r, roots (snd r), GetNItems (snd r), GetNTrees (snd r)))
     (Load (Angular ieee) (os_with ''forest.ann'' regrown_file) ''forest.ann'' True forest_unloaded) =
     Some (None, [7, 6], 4, 2)" by code_simp
  have 5: "map_option (\<lambda>r. (fst r, roots (snd r), GetNItems (snd r), GetNTrees (snd r)))
     (Load (Angular ieee) (os_with ''forest.ann'' regrown_file) ''forest.ann'' True (NewAnnoyIndex 1)) =
     Some (None, [7], 5, 1)" by code_simp
  from forest_resident_loaded 1 2 3 4 5 show ?thesis by simp
qed

end
